theory Spec2Isabelle
  imports Complex_Main "HOL-Library.Sublist" "HOL-Library.Multiset"
begin

section \<open>JavaScript values\<close>

text \<open>
  The detection orchestrator (\<^verbatim>\<open>server/services/detectionOrchestrator.js\<close>) reads
  duck-typed tier results, so the fields of a tier result are arbitrary JavaScript values.
  A number is a finite value or one of the three non-finite ones; no arithmetic is done
  on these numbers, only \<^verbatim>\<open>Number.isFinite\<close>, truthiness and \<^verbatim>\<open>??\<close>.
  An object or array is an opaque reference (always truthy, never equal to a string).
\<close>

datatype jsnum = Fin rat | NaN | PosInf | NegInf

datatype jsval = JUndefined | JNull | JBool bool | JNum jsnum | JStr string | JObj nat

text \<open>\<^verbatim>\<open>!!v\<close>: the falsy values are undefined, null, false, 0, NaN and the empty string.\<close>

fun truthy :: "jsval \<Rightarrow> bool" where
  "truthy JUndefined = False"
| "truthy JNull = False"
| "truthy (JBool b) = b"
| "truthy (JNum (Fin q)) = (q \<noteq> 0)"
| "truthy (JNum NaN) = False"
| "truthy (JNum PosInf) = True"
| "truthy (JNum NegInf) = True"
| "truthy (JStr s) = (s \<noteq> [])"
| "truthy (JObj _) = True"

text \<open>\<^verbatim>\<open>a || b\<close>\<close>

definition js_or :: "jsval \<Rightarrow> jsval \<Rightarrow> jsval" where
  "js_or a b = (if truthy a then a else b)"

text \<open>\<^verbatim>\<open>a ?? b\<close>\<close>

definition coalesce :: "jsval \<Rightarrow> jsval \<Rightarrow> jsval" where
  "coalesce a b = (if a = JUndefined \<or> a = JNull then b else a)"

text \<open>\<^verbatim>\<open>Number.isFinite(v)\<close>: true only for a number that is finite.\<close>

fun isFinite :: "jsval \<Rightarrow> bool" where
  "isFinite (JNum (Fin _)) = True"
| "isFinite _ = False"

text \<open>\<^verbatim>\<open>o?.f\<close> on a value that is an object or null.\<close>

definition oget :: "('a \<Rightarrow> jsval) \<Rightarrow> 'a option \<Rightarrow> jsval" where
  "oget f ob = (case ob of None \<Rightarrow> JUndefined | Some x \<Rightarrow> f x)"

section \<open>Uploaded files and the reference dataset\<close>

record upfile =
  originalName :: string
  serverName :: string

record required_file =
  key :: string
  human_name :: string

record routine =
  required_files :: "required_file list"

text \<open>
  \<^verbatim>\<open>db.system_data\<close>: the routines and, per report key, the field specification, whose
  \<^verbatim>\<open>fields\<close> is an array (\<open>Some\<close>) or anything else (\<open>None\<close>). A missing or empty
  \<^verbatim>\<open>human_name\<close> is the empty string (both are falsy).
\<close>

record db =
  routines :: "routine list"
  report_field_specs :: "string \<rightharpoonup> string list option"

section \<open>Tier results\<close>

text \<open>
  What a tier call returns, property by property; a property the object does not have is
  \<open>JUndefined\<close>. The tier returns \<open>None\<close> when its value is falsy (\<^verbatim>\<open>!r\<close>); a truthy
  value that is not an object has none of these properties and is the record of
  \<open>JUndefined\<close>s.
\<close>

record tier_raw =
  r_fieldsMapped :: jsval
  r_located :: jsval
  r_attributesMapped :: jsval
  r_mapped :: jsval
  r_locatedSource :: jsval
  r_mappedCount :: jsval
  r_totalFields :: jsval
  r_message :: jsval

text \<open>The shape \<^verbatim>\<open>normalizeTierResult\<close> returns, and the shape of the merged result.\<close>

record tier_result =
  t_fieldsMapped :: jsval
  t_attributesMapped :: jsval
  t_locatedSource :: jsval
  t_mappedCount :: jsval
  t_totalFields :: jsval
  t_message :: jsval

text \<open>
  What a tier call can reject with is any JavaScript value. The \<^verbatim>\<open>catch\<close> of a step
  makes two observations of it and nothing else: \<open>th_message\<close> is
  \<^verbatim>\<open>String(err.message)\<close> when \<^verbatim>\<open>err?.message\<close> is truthy and \<open>None\<close> when it is
  falsy (or \<^verbatim>\<open>err\<close> is null or undefined); \<open>th_text\<close> is \<^verbatim>\<open>String(err)\<close>. Every pair
  of observations belongs to some value: an object with a \<^verbatim>\<open>message\<close> property and
  a \<^verbatim>\<open>toString\<close> method. For a value that \<^verbatim>\<open>String\<close> cannot convert, the
  conversion throws after the job was marked failed, the handler in \<^verbatim>\<open>schedule\<close>
  catches that second error and stores its message: the observation whose
  conversion threw is then the message of the second error.
\<close>

record thrown =
  th_message :: "string option"
  th_text :: string

text \<open>\<^verbatim>\<open>String(err?.message || err)\<close>\<close>

definition errText :: "thrown \<Rightarrow> string" where
  "errText err = (case th_message err of Some m \<Rightarrow> m | None \<Rightarrow> th_text err)"

text \<open>
  Three thrown values: \<^verbatim>\<open>new Error(msg)\<close> with a given \<^verbatim>\<open>name\<close> (its string is the
  one \<^verbatim>\<open>Error.prototype.toString\<close> builds), a string, and the empty array (no
  \<^verbatim>\<open>message\<close>, and \<^verbatim>\<open>String([])\<close> is empty).
\<close>

definition thrownError :: "string \<Rightarrow> string \<Rightarrow> thrown" where
  "thrownError nm msg =
     \<lparr> th_message = (if msg \<noteq> [] then Some msg else None),
       th_text = (if nm = [] then msg else if msg = [] then nm else nm @ '': '' @ msg) \<rparr>"

definition thrownString :: "string \<Rightarrow> thrown" where
  "thrownString str = \<lparr> th_message = None, th_text = str \<rparr>"

definition thrownEmptyArray :: thrown where
  "thrownEmptyArray = \<lparr> th_message = None, th_text = [] \<rparr>"

record tier_args =
  a_jobId :: string
  a_reportKey :: string
  a_files :: "upfile list"
  a_db :: "db option"

record tierA_args = tier_args +
  a_engagementId :: jsval
  a_adminId :: jsval
  a_routineCodes :: "string list"

type_synonym tierA = "tierA_args \<Rightarrow> thrown + tier_raw option"
type_synonym tierB = "tier_args \<Rightarrow> thrown + tier_raw option"

subsection \<open>Tier A (\<^verbatim>\<open>server/services/detectionTierA.js\<close>)\<close>










text \<open>
  The function the module exports: line 61 assigns \<^verbatim>\<open>module.exports.locateAndMap\<close>
  again, so the orchestrator's \<^verbatim>\<open>TierA.locateAndMap\<close> is this stub.
\<close>

definition TierA_locateAndMap :: tierA where
  "TierA_locateAndMap ctx =
     Inr (Some \<lparr> r_fieldsMapped = JUndefined, r_located = JStr ''no'',
                 r_attributesMapped = JUndefined, r_mapped = JStr ''no'',
                 r_locatedSource = JNull, r_mappedCount = JNum (Fin 0),
                 r_totalFields = JNum (Fin 0), r_message = JNull \<rparr>)"

subsection \<open>Tier B (\<^verbatim>\<open>server/services/detectionTierB.js\<close>)\<close>

definition TierB_locateAndMap :: tierB where
  "TierB_locateAndMap ctx =
     Inr (Some \<lparr> r_fieldsMapped = JUndefined, r_located = JStr ''no'',
                 r_attributesMapped = JUndefined, r_mapped = JStr ''no'',
                 r_locatedSource = JStr ''ai'', r_mappedCount = JNum (Fin 0),
                 r_totalFields = JNum (Fin 0), r_message = JNull \<rparr>)"

section \<open>The orchestrator (\<^verbatim>\<open>server/services/detectionOrchestrator.js\<close>)\<close>

subsection \<open>The store\<close>

datatype overall_state = running | success | failed

record job_progress =
  p_done :: nat
  p_total :: nat

record job_outcome =
  fieldsAnyNo :: bool
  attributesAnyNo :: bool
  fieldsAllYes :: bool
  attributesAllYes :: bool

text \<open>
  A report of a job. The two axes are only ever assigned the literals
  \<^verbatim>\<open>'pending'\<close>, \<^verbatim>\<open>'yes'\<close> and \<^verbatim>\<open>'no'\<close>, so they are strings; the other fields
  receive what the tiers returned.
\<close>

record report_task =
  reportKey :: string
  fieldsMapped :: string
  attributesMapped :: string
  locatedSource :: jsval
  mappedCount :: jsval
  totalFields :: jsval
  message :: jsval

text \<open>The context object \<^verbatim>\<open>start\<close> builds and the interval callback keeps.\<close>

record ctx =
  c_db :: "db option"
  c_files :: "upfile list"
  c_engagementId :: jsval
  c_adminId :: jsval
  c_routineCodes :: "string list"

text \<open>
  A job of the store. \<open>timer\<close> is \<^verbatim>\<open>_timer\<close>, the handle \<^verbatim>\<open>setInterval\<close> returned or
  null; \<open>cursor\<close> is \<^verbatim>\<open>_cursor\<close>; \<open>jobMessage\<close> is the job's \<^verbatim>\<open>message\<close>.
\<close>

record job =
  startedAt :: nat
  overall :: overall_state
  progress :: job_progress
  reports :: "report_task list"
  outcome :: job_outcome
  timer :: "nat option"
  cursor :: nat
  jobMessage :: "string option"

text \<open>
  A step that has passed its first \<^verbatim>\<open>await\<close> and has not finished: the job id, the
  index \<open>i\<close> and the report \<open>r\<close> it read before the \<^verbatim>\<open>await\<close>, and its context.
\<close>

record inflight_step =
  f_jobId :: string
  f_index :: nat
  f_task :: report_task
  f_ctx :: ctx

text \<open>
  The module's state: the \<^verbatim>\<open>store\<close> map, and the intervals that \<^verbatim>\<open>setInterval\<close>
  has created and \<^verbatim>\<open>clearInterval\<close> has not removed, each with the job id and the
  context its callback closes over. \<open>nextTimer\<close> is the next fresh handle. \<open>inflight\<close>
  holds the steps that wait for their tier calls.
\<close>

record sys =
  store :: "string \<rightharpoonup> job"
  intervals :: "nat \<rightharpoonup> string \<times> ctx"
  nextTimer :: nat
  inflight :: "inflight_step multiset"

definition initial :: sys where
  "initial = \<lparr> store = Map.empty, intervals = Map.empty, nextTimer = 0, inflight = {#} \<rparr>"

text \<open>A job object is mutated in place: the store keeps the changed job under its id.\<close>

definition modJob :: "string \<Rightarrow> (job \<Rightarrow> job) \<Rightarrow> sys \<Rightarrow> sys" where
  "modJob jobId f s =
     (case store s jobId of None \<Rightarrow> s
      | Some j \<Rightarrow> s\<lparr> store := (store s)(jobId \<mapsto> f j) \<rparr>)"

subsection \<open>Helpers\<close>

definition computeOutcome :: "report_task list \<Rightarrow> job_outcome" where
  "computeOutcome rs =
     \<lparr> fieldsAnyNo = list_ex (\<lambda>r. fieldsMapped r = ''no'') rs,
       attributesAnyNo = list_ex (\<lambda>r. attributesMapped r = ''no'') rs,
       fieldsAllYes = (length rs > 0 \<and> list_all (\<lambda>r. fieldsMapped r = ''yes'') rs),
       attributesAllYes = (length rs > 0 \<and> list_all (\<lambda>r. attributesMapped r = ''yes'') rs) \<rparr>"

definition normalizeTierResult :: "tier_raw option \<Rightarrow> tier_result option" where
  "normalizeTierResult ro =
     (case ro of None \<Rightarrow> None
      | Some r \<Rightarrow>
          let fieldsMappedRaw = coalesce (r_fieldsMapped r) (r_located r);
              attributesMappedRaw = coalesce (r_attributesMapped r) (r_mapped r);
              fm = (if fieldsMappedRaw = JStr ''yes'' then JStr ''yes''
                    else if fieldsMappedRaw = JStr ''no'' then JStr ''no''
                    else js_or fieldsMappedRaw (JStr ''pending''));
              am = (if attributesMappedRaw = JStr ''yes'' then JStr ''yes''
                    else if attributesMappedRaw = JStr ''no'' then JStr ''no''
                    else js_or attributesMappedRaw (JStr ''pending''))
          in Some \<lparr> t_fieldsMapped = fm,
                    t_attributesMapped = am,
                    t_locatedSource = js_or (r_locatedSource r) JNull,
                    t_mappedCount = (if isFinite (r_mappedCount r) then r_mappedCount r else JNum (Fin 0)),
                    t_totalFields = (if isFinite (r_totalFields r) then r_totalFields r else JNum (Fin 0)),
                    t_message = js_or (r_message r) JNull \<rparr>)"

text \<open>Seed a job if not present.\<close>

definition seedTask :: "string \<Rightarrow> report_task" where
  "seedTask k = \<lparr> reportKey = k, fieldsMapped = ''pending'', attributesMapped = ''pending'',
                  locatedSource = JNull, mappedCount = JNum (Fin 0), totalFields = JNum (Fin 0),
                  message = JNull \<rparr>"

definition ensureJob :: "nat \<Rightarrow> string \<Rightarrow> string list option \<Rightarrow> sys \<Rightarrow> job \<times> sys" where
  "ensureJob now jobId reportKeys s =
     (case store s jobId of Some j \<Rightarrow> (j, s)
      | None \<Rightarrow>
          let rs = map seedTask (case reportKeys of None \<Rightarrow> [] | Some ks \<Rightarrow> ks);
              j = \<lparr> startedAt = now, overall = running,
                    progress = \<lparr> p_done = 0, p_total = length rs \<rparr>,
                    reports = rs, outcome = computeOutcome rs,
                    timer = None, cursor = 0, jobMessage = None \<rparr>
          in (j, s\<lparr> store := (store s)(jobId \<mapsto> j) \<rparr>))"

definition clearTimer :: "string \<Rightarrow> sys \<Rightarrow> sys" where
  "clearTimer jobId s =
     (case store s jobId of None \<Rightarrow> s
      | Some j \<Rightarrow>
          (case timer j of None \<Rightarrow> s
           | Some t \<Rightarrow>
               modJob jobId (\<lambda>j. j\<lparr> timer := None \<rparr>)
                 (s\<lparr> intervals := (intervals s)(t := None) \<rparr>)))"

text \<open>Schedule ticking until done: one interval per call, after clearing the old one.\<close>

definition schedule :: "string \<Rightarrow> ctx \<Rightarrow> sys \<Rightarrow> sys" where
  "schedule jobId cx s =
     (case store s jobId of None \<Rightarrow> s
      | Some _ \<Rightarrow>
          let s1 = clearTimer jobId s; t = nextTimer s1
          in modJob jobId (\<lambda>j. j\<lparr> timer := Some t \<rparr>)
               (s1\<lparr> intervals := (intervals s1)(t \<mapsto> (jobId, cx)), nextTimer := Suc t \<rparr>))"

subsection \<open>One step\<close>

text \<open>Tier B is needed when the result is missing or an axis is neither yes nor no.\<close>

definition aNeedsB :: "tier_result option \<Rightarrow> bool" where
  "aNeedsB result =
     (case result of None \<Rightarrow> True
      | Some res \<Rightarrow>
          (t_fieldsMapped res \<noteq> JStr ''yes'' \<and> t_fieldsMapped res \<noteq> JStr ''no'')
          \<or> (t_attributesMapped res \<noteq> JStr ''yes'' \<and> t_attributesMapped res \<noteq> JStr ''no''))"

text \<open>Prefer existing A values; fill only where pending.\<close>

definition mergeTiers :: "tier_result option \<Rightarrow> tier_result option \<Rightarrow> tier_result" where
  "mergeTiers result resB =
     \<lparr> t_fieldsMapped =
         (if truthy (oget t_fieldsMapped result) \<and> oget t_fieldsMapped result \<noteq> JStr ''pending''
          then oget t_fieldsMapped result
          else coalesce (oget t_fieldsMapped resB) (JStr ''pending'')),
       t_attributesMapped =
         (if truthy (oget t_attributesMapped result) \<and> oget t_attributesMapped result \<noteq> JStr ''pending''
          then oget t_attributesMapped result
          else coalesce (oget t_attributesMapped resB) (JStr ''pending'')),
       t_locatedSource = js_or (oget t_locatedSource result) (js_or (oget t_locatedSource resB) JNull),
       t_mappedCount = coalesce (oget t_mappedCount result) (coalesce (oget t_mappedCount resB) (JNum (Fin 0))),
       t_totalFields = coalesce (oget t_totalFields result) (coalesce (oget t_totalFields resB) (JNum (Fin 0))),
       t_message = js_or (oget t_message result) (js_or (oget t_message resB) JNull) \<rparr>"

text \<open>
  The tier calls of the \<^verbatim>\<open>try\<close> block, with the tiers it calls in order. A call that
  throws ends the block: \<open>Inl\<close> is what the \<^verbatim>\<open>catch\<close> receives.
\<close>

datatype tier_call = CallTierA | CallTierB

text \<open>The argument objects of the two calls.\<close>

definition argsA :: "string \<Rightarrow> ctx \<Rightarrow> report_task \<Rightarrow> tierA_args" where
  "argsA jobId cx r =
     \<lparr> a_jobId = jobId, a_reportKey = reportKey r, a_files = c_files cx, a_db = c_db cx,
       a_engagementId = js_or (c_engagementId cx) JNull,
       a_adminId = js_or (c_adminId cx) JNull,
       a_routineCodes = c_routineCodes cx \<rparr>"

definition argsB :: "string \<Rightarrow> ctx \<Rightarrow> report_task \<Rightarrow> tier_args" where
  "argsB jobId cx r =
     \<lparr> a_jobId = jobId, a_reportKey = reportKey r, a_files = c_files cx, a_db = c_db cx \<rparr>"

definition resolveTiers ::
  "tierA \<Rightarrow> tierB \<Rightarrow> string \<Rightarrow> ctx \<Rightarrow> report_task \<Rightarrow> (thrown + tier_result option) \<times> tier_call list" where
  "resolveTiers TierA TierB jobId cx r =
     (case TierA (argsA jobId cx r) of
        Inl err \<Rightarrow> (Inl err, [CallTierA])
      | Inr rawA \<Rightarrow>
          let resA = normalizeTierResult rawA; result = resA
          in if aNeedsB result then
               (case TierB (argsB jobId cx r) of
                  Inl err \<Rightarrow> (Inl err, [CallTierA, CallTierB])
                | Inr rawB \<Rightarrow>
                    (Inr (Some (mergeTiers result (normalizeTierResult rawB))),
                     [CallTierA, CallTierB]))
             else (Inr result, [CallTierA]))"

text \<open>Terminalize (no more pending after a step).\<close>

definition terminalize :: "jsval \<Rightarrow> string" where
  "terminalize v = (if v = JStr ''yes'' then ''yes'' else if v = JStr ''no'' then ''no'' else ''no'')"

text \<open>Apply to report.\<close>

definition applyResult :: "tier_result option \<Rightarrow> report_task \<Rightarrow> report_task" where
  "applyResult result r =
     (let fm = terminalize (oget t_fieldsMapped result);
          am = terminalize (oget t_attributesMapped result)
      in r\<lparr> fieldsMapped := fm,
            attributesMapped := am,
            locatedSource := (if fm = ''yes'' then js_or (oget t_locatedSource result) JNull else JNull),
            mappedCount := (if isFinite (oget t_mappedCount result) then oget t_mappedCount result
                            else JNum (Fin 0)),
            totalFields := (if isFinite (oget t_totalFields result) then oget t_totalFields result
                            else JNum (Fin 0)),
            message := js_or (oget t_message result) JNull \<rparr>)"

text \<open>The writes after the tier calls: the report, the cursor, the progress, the outcome.\<close>

definition advance :: "nat \<Rightarrow> tier_result option \<Rightarrow> job \<Rightarrow> job" where
  "advance i result j =
     (let rs = (reports j)[i := applyResult result (reports j ! i)];
          c = cursor j + 1
      in j\<lparr> reports := rs, cursor := c,
            progress := (progress j)\<lparr> p_done := min c (p_total (progress j)) \<rparr>,
            outcome := computeOutcome rs \<rparr>)"

text \<open>
  \<^verbatim>\<open>step\<close> is an async function, so it runs in two parts. The part before the first
  \<^verbatim>\<open>await\<close> runs in the interval callback: it returns at once for an unknown job or a
  job that is not running, finishes a job whose cursor is at the end, and otherwise
  reads \<open>i\<close> and \<open>r\<close>, builds the arguments of tier A and waits.
\<close>

definition stepStart :: "string \<Rightarrow> ctx \<Rightarrow> sys \<Rightarrow> sys" where
  "stepStart jobId cx s =
     (case store s jobId of None \<Rightarrow> s
      | Some j \<Rightarrow>
          if overall j \<noteq> running then s
          else let i = cursor j in
            if i \<ge> length (reports j)
            then clearTimer jobId (modJob jobId (\<lambda>j. j\<lparr> overall := success \<rparr>) s)
            else s\<lparr> inflight := add_mset \<lparr> f_jobId = jobId, f_index = i,
                                           f_task = reports j ! i, f_ctx = cx \<rparr> (inflight s) \<rparr>)"

text \<open>
  The part after the tier calls have settled, for a step \<open>e\<close> that was waiting. No state
  is read or written between the two tier calls, so both are resolved here, with the
  arguments built from what the step read when it began. The writes go to the job as it
  is now: report \<open>i\<close> of the job, and \<^verbatim>\<open>job._cursor += 1\<close> on the current cursor.
  Nothing tests that the job is still running.
\<close>

definition stepEnd :: "tierA \<Rightarrow> tierB \<Rightarrow> inflight_step \<Rightarrow> sys \<Rightarrow> sys" where
  "stepEnd TierA TierB e s =
     (let s0 = s\<lparr> inflight := inflight s - {#e#} \<rparr>; jobId = f_jobId e
      in case fst (resolveTiers TierA TierB jobId (f_ctx e) (f_task e)) of
           Inl err \<Rightarrow>
             clearTimer jobId
               (modJob jobId (\<lambda>j. j\<lparr> overall := failed, jobMessage := Some (errText err) \<rparr>) s0)
         | Inr result \<Rightarrow>
             let s1 = modJob jobId (advance (f_index e) result) s0
             in (case store s1 jobId of None \<Rightarrow> s1
                 | Some j1 \<Rightarrow>
                     if cursor j1 \<ge> length (reports j1)
                     then clearTimer jobId (modJob jobId (\<lambda>j. j\<lparr> overall := success \<rparr>) s1)
                     else s1))"

text \<open>
  A step that runs to its end with nothing in between, as it does when the tiers resolve
  at once (the two tiers of this repository do).
\<close>

definition step :: "tierA \<Rightarrow> tierB \<Rightarrow> string \<Rightarrow> ctx \<Rightarrow> sys \<Rightarrow> sys" where
  "step TierA TierB jobId cx s =
     (case store s jobId of None \<Rightarrow> s
      | Some j \<Rightarrow>
          if overall j = running \<and> cursor j < length (reports j)
          then stepEnd TierA TierB
                 \<lparr> f_jobId = jobId, f_index = cursor j, f_task = reports j ! cursor j, f_ctx = cx \<rparr>
                 (stepStart jobId cx s)
          else stepStart jobId cx s)"

subsection \<open>The public functions\<close>

record payload =
  p_db :: "db option"
  p_files :: "upfile list option"
  p_engagementId :: jsval
  p_adminId :: jsval
  p_routineCodes :: "string list option"
  p_reportKeys :: "string list option"

datatype start_error = MissingJobId

record start_ack =
  ack_jobId :: string
  started :: bool
  empty :: bool
  already :: bool

text \<open>
  Start a detection run. A falsy \<open>jobId\<close> is the empty string; the call then throws.
  \<open>now\<close> is \<^verbatim>\<open>Date.now()\<close>.
\<close>

definition start :: "nat \<Rightarrow> string \<Rightarrow> payload \<Rightarrow> sys \<Rightarrow> (start_error + start_ack) \<times> sys" where
  "start now jobId pl s =
     (if jobId = [] then (Inl MissingJobId, s)
      else
        let (j, s1) = ensureJob now jobId (p_reportKeys pl) s
        in if p_total (progress j) = 0 then
             (Inr \<lparr> ack_jobId = jobId, started = True, empty = True, already = False \<rparr>,
              modJob jobId (\<lambda>j. j\<lparr> overall := success, outcome := computeOutcome (reports j) \<rparr>) s1)
           else if overall j \<noteq> running then
             (Inr \<lparr> ack_jobId = jobId, started = True, empty = False, already = True \<rparr>, s1)
           else if timer j \<noteq> None then
             (Inr \<lparr> ack_jobId = jobId, started = True, empty = False, already = True \<rparr>, s1)
           else
             (Inr \<lparr> ack_jobId = jobId, started = True, empty = False, already = False \<rparr>,
              schedule jobId
                \<lparr> c_db = p_db pl,
                  c_files = (case p_files pl of None \<Rightarrow> [] | Some fs \<Rightarrow> fs),
                  c_engagementId = js_or (p_engagementId pl) JNull,
                  c_adminId = js_or (p_adminId pl) JNull,
                  c_routineCodes = (case p_routineCodes pl of None \<Rightarrow> [] | Some cs \<Rightarrow> cs) \<rparr>
                s1))"

record report_view =
  v_reportKey :: string
  v_fieldsMapped :: string
  v_attributesMapped :: string
  v_located :: string
  v_mapped :: string
  v_locatedSource :: jsval
  v_mappedCount :: jsval
  v_totalFields :: jsval
  v_message :: jsval

record snapshot =
  s_jobId :: string
  s_overall :: overall_state
  s_progress :: job_progress
  s_outcome :: job_outcome
  s_reports :: "report_view list"

text \<open>Status snapshot; \<open>None\<close> is the \<^verbatim>\<open>null\<close> returned for an unknown job.\<close>

definition status :: "string \<Rightarrow> sys \<Rightarrow> snapshot option" where
  "status jobId s =
     (case store s jobId of None \<Rightarrow> None
      | Some j \<Rightarrow>
          Some \<lparr> s_jobId = jobId,
                 s_overall = overall j,
                 s_progress = progress j,
                 s_outcome = outcome j,
                 s_reports = map (\<lambda>r.
                   \<lparr> v_reportKey = reportKey r,
                     v_fieldsMapped = fieldsMapped r,
                     v_attributesMapped = attributesMapped r,
                     v_located = fieldsMapped r,
                     v_mapped = attributesMapped r,
                     v_locatedSource = locatedSource r,
                     v_mappedCount = mappedCount r,
                     v_totalFields = totalFields r,
                     v_message = js_or (message r) JNull \<rparr>) (reports j) \<rparr>)"

subsection \<open>Reachable states\<close>

text \<open>
  The module starts with an empty store. A state changes by a call of \<^verbatim>\<open>start\<close>, by
  the callback of a live interval, which begins a step with the job id and context the
  interval was created with, or by a waiting step whose tier calls settle. These
  happen in any order: \<^verbatim>\<open>setInterval\<close> fires every 500 ms whether or not the step
  of the tick before has finished, so steps of one job may overlap, and they may finish
  in any order. What the two tiers return, or throw, may differ from call to call.
\<close>

inductive reachable :: "sys \<Rightarrow> bool" where
  reach_initial: "reachable initial"
| reach_start: "reachable s \<Longrightarrow> reachable (snd (start now jobId pl s))"
| reach_tick: "reachable s \<Longrightarrow> intervals s t = Some (jobId, cx)
                 \<Longrightarrow> reachable (stepStart jobId cx s)"
| reach_done: "reachable s \<Longrightarrow> e \<in># inflight s
                 \<Longrightarrow> reachable (stepEnd TierA TierB e s)"

subsection \<open>A run with two reports\<close>

text \<open>
  The scenario of the analysis page: a job for the report keys \<^verbatim>\<open>soi\<close> and
  \<^verbatim>\<open>pands\<close>, started once, and its state after the first tick with the two tiers
  of the repository.
\<close>

definition demoPayload :: payload where
  "demoPayload = \<lparr> p_db = None, p_files = None, p_engagementId = JUndefined,
                   p_adminId = JUndefined, p_routineCodes = None,
                   p_reportKeys = Some [''soi'', ''pands''] \<rparr>"

definition demoCtx :: ctx where
  "demoCtx = \<lparr> c_db = None, c_files = [], c_engagementId = JNull, c_adminId = JNull,
               c_routineCodes = [] \<rparr>"




definition demoStarted :: sys where
  "demoStarted = snd (start 0 ''job1'' demoPayload initial)"

definition demoTicked :: sys where
  "demoTicked = step TierA_locateAndMap TierB_locateAndMap ''job1'' demoCtx demoStarted"

text \<open>
  The same job when tier A is slow: the first tick begins a step on report 0, the second
  tick comes before the tier has answered and begins another step on report 0, and then
  both steps finish.
\<close>

definition demoStep0 :: inflight_step where
  "demoStep0 = \<lparr> f_jobId = ''job1'', f_index = 0, f_task = seedTask ''soi'', f_ctx = demoCtx \<rparr>"



text \<open>
  Tiers for the scenarios: a tier that throws a given value, and tiers that return a
  given object. \<open>emptyRaw\<close> is the object without any of the properties.
\<close>

definition emptyRaw :: tier_raw where
  "emptyRaw = \<lparr> r_fieldsMapped = JUndefined, r_located = JUndefined,
                r_attributesMapped = JUndefined, r_mapped = JUndefined,
                r_locatedSource = JUndefined, r_mappedCount = JUndefined,
                r_totalFields = JUndefined, r_message = JUndefined \<rparr>"

definition throwingTierA :: "thrown \<Rightarrow> tierA" where
  "throwingTierA err ctx = Inl err"

definition answeringTierA :: "tier_raw \<Rightarrow> tierA" where
  "answeringTierA raw ctx = Inr (Some raw)"

definition answeringTierB :: "tier_raw \<Rightarrow> tierB" where
  "answeringTierB raw ctx = Inr (Some raw)"


section \<open>Invariants of the orchestrator\<close>

text \<open>
  What the two parts of a step do to the job they find, written on the job alone: the
  store keeps this job under the same id, and the interval of a job whose timer is
  cleared is removed. The invariant of a job relates its total and its outcome to its
  reports and says that only a running job with reports has a timer; it holds however
  steps overlap. The invariant of the state adds that the live intervals are exactly the
  timers of the jobs, each owned by its job, that handles are fresh, and that every
  waiting step belongs to a job of the store and to one of its reports.
\<close>

definition beginJob :: "job \<Rightarrow> job" where
  "beginJob j =
     (if overall j = running \<and> cursor j \<ge> length (reports j)
      then j\<lparr> overall := success, timer := None \<rparr> else j)"

definition endJob :: "tierA \<Rightarrow> tierB \<Rightarrow> inflight_step \<Rightarrow> job \<Rightarrow> job" where
  "endJob TierA TierB e j =
     (case fst (resolveTiers TierA TierB (f_jobId e) (f_ctx e) (f_task e)) of
        Inl err \<Rightarrow> j\<lparr> overall := failed, jobMessage := Some (errText err), timer := None \<rparr>
      | Inr result \<Rightarrow>
          if cursor (advance (f_index e) result j) \<ge> length (reports (advance (f_index e) result j))
          then (advance (f_index e) result j)\<lparr> overall := success, timer := None \<rparr>
          else advance (f_index e) result j)"

definition terminal :: "report_task \<Rightarrow> bool" where
  "terminal r = ((fieldsMapped r = ''yes'' \<or> fieldsMapped r = ''no'')
               \<and> (attributesMapped r = ''yes'' \<or> attributesMapped r = ''no''))"

definition job_inv :: "job \<Rightarrow> bool" where
  "job_inv j =
     (p_total (progress j) = length (reports j)
      \<and> outcome j = computeOutcome (reports j)
      \<and> (timer j \<noteq> None \<longrightarrow> overall j = running \<and> reports j \<noteq> []))"

definition sys_inv :: "sys \<Rightarrow> bool" where
  "sys_inv s =
     ((\<forall>k j. store s k = Some j \<longrightarrow> job_inv j)
      \<and> (\<forall>t k cx. intervals s t = Some (k, cx) \<longrightarrow> (\<exists>j. store s k = Some j \<and> timer j = Some t))
      \<and> (\<forall>k j t. store s k = Some j \<and> timer j = Some t \<longrightarrow> (\<exists>cx. intervals s t = Some (k, cx)))
      \<and> (\<forall>t. intervals s t \<noteq> None \<longrightarrow> t < nextTimer s)
      \<and> (\<forall>e. e \<in># inflight s \<longrightarrow>
            (\<exists>j. store s (f_jobId e) = Some j \<and> f_index e < length (reports j)
                  \<and> reportKey (f_task e) = reportKey (reports j ! f_index e))))"


section \<open>Properties of the store, the timers and a step\<close>

lemma sys_inv_job: "sys_inv s \<Longrightarrow> store s k = Some j \<Longrightarrow> job_inv j"
  unfolding sys_inv_def by blast

lemma sys_inv_link:
  "sys_inv s \<Longrightarrow> intervals s t = Some (k, cx) \<Longrightarrow> \<exists>j. store s k = Some j \<and> timer j = Some t"
  unfolding sys_inv_def by blast

lemma sys_inv_owner:
  "sys_inv s \<Longrightarrow> store s k = Some j \<Longrightarrow> timer j = Some t \<Longrightarrow> \<exists>cx. intervals s t = Some (k, cx)"
  unfolding sys_inv_def by blast

lemma sys_inv_fresh: "sys_inv s \<Longrightarrow> intervals s t = Some x \<Longrightarrow> t < nextTimer s"
  unfolding sys_inv_def by blast

lemma sys_inv_waiting:
  "sys_inv s \<Longrightarrow> e \<in># inflight s \<Longrightarrow>
     \<exists>j. store s (f_jobId e) = Some j \<and> f_index e < length (reports j)
         \<and> reportKey (f_task e) = reportKey (reports j ! f_index e)"
  unfolding sys_inv_def by blast

lemma store_modJob:
  "store (modJob k f s) = (case store s k of None \<Rightarrow> store s | Some j \<Rightarrow> (store s)(k \<mapsto> f j))"
  by (simp add: modJob_def split: option.splits)

lemma intervals_modJob [simp]: "intervals (modJob k f s) = intervals s"
  by (simp add: modJob_def split: option.splits)

lemma nextTimer_modJob [simp]: "nextTimer (modJob k f s) = nextTimer s"
  by (simp add: modJob_def split: option.splits)

lemma inflight_modJob [simp]: "inflight (modJob k f s) = inflight s"
  by (simp add: modJob_def split: option.splits)

lemma store_clearTimer:
  "store (clearTimer k s) =
     (case store s k of None \<Rightarrow> store s | Some j \<Rightarrow> (store s)(k \<mapsto> j\<lparr> timer := None \<rparr>))"
  by (auto simp: clearTimer_def store_modJob split: option.splits)

lemma intervals_clearTimer:
  "intervals (clearTimer k s) =
     (case store s k of None \<Rightarrow> intervals s
      | Some j \<Rightarrow> (case timer j of None \<Rightarrow> intervals s | Some t \<Rightarrow> (intervals s)(t := None)))"
  by (simp add: clearTimer_def split: option.splits)

lemma nextTimer_clearTimer [simp]: "nextTimer (clearTimer k s) = nextTimer s"
  by (simp add: clearTimer_def split: option.splits)

lemma inflight_clearTimer [simp]: "inflight (clearTimer k s) = inflight s"
  by (simp add: clearTimer_def split: option.splits)

lemma timer_advance [simp]: "timer (advance i res j) = timer j"
  by (simp add: advance_def Let_def)

lemma overall_advance [simp]: "overall (advance i res j) = overall j"
  by (simp add: advance_def Let_def)

lemma keys_applyResult [simp]: "reportKey (applyResult res r) = reportKey r"
  by (simp add: applyResult_def Let_def)

lemma keys_advance [simp]: "map reportKey (reports (advance i res j)) = map reportKey (reports j)"
  by (cases "i < length (reports j)")
     (simp_all add: advance_def Let_def map_update list_update_same_conv list_update_beyond)

lemma length_advance [simp]: "length (reports (advance i res j)) = length (reports j)"
  by (simp add: advance_def Let_def)

lemma terminal_applyResult: "terminal (applyResult res r)"
  by (simp add: terminal_def applyResult_def terminalize_def Let_def)

text \<open>The first part of a step.\<close>

lemma store_stepStart:
  "store (stepStart k cx s) =
     (case store s k of None \<Rightarrow> store s | Some j \<Rightarrow> (store s)(k \<mapsto> beginJob j))"
  by (auto simp: stepStart_def beginJob_def store_clearTimer store_modJob Let_def
      split: option.splits)

lemma intervals_stepStart:
  "intervals (stepStart k cx s) =
     (case store s k of None \<Rightarrow> intervals s
      | Some j \<Rightarrow>
          (case timer j of None \<Rightarrow> intervals s
           | Some t \<Rightarrow> if timer (beginJob j) = None then (intervals s)(t := None) else intervals s))"
  by (auto simp: stepStart_def beginJob_def intervals_clearTimer store_modJob Let_def
      split: option.splits)

lemma nextTimer_stepStart [simp]: "nextTimer (stepStart k cx s) = nextTimer s"
  by (auto simp: stepStart_def Let_def split: option.splits)

lemma inflight_stepStart:
  "inflight (stepStart k cx s) =
     (case store s k of None \<Rightarrow> inflight s
      | Some j \<Rightarrow>
          if overall j = running \<and> cursor j < length (reports j)
          then add_mset \<lparr> f_jobId = k, f_index = cursor j, f_task = reports j ! cursor j, f_ctx = cx \<rparr>
                 (inflight s)
          else inflight s)"
  by (auto simp: stepStart_def Let_def split: option.splits)

text \<open>The second part of a step.\<close>

lemma store_stepEnd:
  "store (stepEnd TierA TierB e s) =
     (case store s (f_jobId e) of None \<Rightarrow> store s
      | Some j \<Rightarrow> (store s)(f_jobId e \<mapsto> endJob TierA TierB e j))"
  by (auto simp: stepEnd_def endJob_def store_clearTimer store_modJob Let_def
      split: option.splits sum.splits)

lemma intervals_stepEnd:
  "intervals (stepEnd TierA TierB e s) =
     (case store s (f_jobId e) of None \<Rightarrow> intervals s
      | Some j \<Rightarrow>
          (case timer j of None \<Rightarrow> intervals s
           | Some t \<Rightarrow> if timer (endJob TierA TierB e j) = None
                        then (intervals s)(t := None) else intervals s))"
  by (auto simp: stepEnd_def endJob_def intervals_clearTimer store_modJob Let_def
      split: option.splits sum.splits)

lemma nextTimer_stepEnd [simp]: "nextTimer (stepEnd TierA TierB e s) = nextTimer s"
  by (auto simp: stepEnd_def Let_def split: option.splits sum.splits)

lemma inflight_stepEnd [simp]: "inflight (stepEnd TierA TierB e s) = inflight s - {#e#}"
  by (auto simp: stepEnd_def Let_def split: option.splits sum.splits)

text \<open>A change of one job that keeps its keys and at most clears its timer.\<close>

lemma sys_inv_update:
  assumes inv: "sys_inv s" and sj: "store s k = Some j"
    and st: "store s' = (store s)(k \<mapsto> j')"
    and ji: "job_inv j'"
    and tm: "timer j' = timer j \<or> timer j' = None"
    and iv: "intervals s' =
              (case timer j of None \<Rightarrow> intervals s
               | Some t \<Rightarrow> if timer j' = None then (intervals s)(t := None) else intervals s)"
    and nt: "nextTimer s' = nextTimer s"
    and ks: "map reportKey (reports j') = map reportKey (reports j)"
    and fl: "\<forall>e. e \<in># inflight s' \<longrightarrow> e \<in># inflight s
               \<or> (f_jobId e = k \<and> f_index e < length (reports j)
                   \<and> reportKey (f_task e) = reportKey (reports j ! f_index e))"
  shows "sys_inv s'"
proof -
  have len: "length (reports j') = length (reports j)"
    using ks by (metis length_map)
  have keyat: "\<And>i. i < length (reports j) \<Longrightarrow> reportKey (reports j' ! i) = reportKey (reports j ! i)"
    using ks len by (metis nth_map)
  have a: "\<forall>k' j0. store s' k' = Some j0 \<longrightarrow> job_inv j0"
    using inv ji by (auto simp: st dest: sys_inv_job)
  have b: "\<forall>t k' c. intervals s' t = Some (k', c) \<longrightarrow> (\<exists>j0. store s' k' = Some j0 \<and> timer j0 = Some t)"
  proof (intro allI impI)
    fix t k' c assume h: "intervals s' t = Some (k', c)"
    then have old: "intervals s t = Some (k', c)"
      by (auto simp: iv split: option.splits if_splits)
    from sys_inv_link [OF inv old] obtain j0 where j0: "store s k' = Some j0" "timer j0 = Some t"
      by blast
    show "\<exists>j0. store s' k' = Some j0 \<and> timer j0 = Some t"
    proof (cases "k' = k")
      case False
      with j0 show ?thesis by (simp add: st)
    next
      case True
      with j0 sj have tt: "timer j = Some t" by simp
      with h have "timer j' \<noteq> None" by (auto simp: iv split: if_splits)
      with tm tt True show ?thesis by (simp add: st)
    qed
  qed
  have c: "\<forall>k' j0 t. store s' k' = Some j0 \<and> timer j0 = Some t \<longrightarrow> (\<exists>c. intervals s' t = Some (k', c))"
  proof (intro allI impI)
    fix k' j0 t assume h: "store s' k' = Some j0 \<and> timer j0 = Some t"
    show "\<exists>c. intervals s' t = Some (k', c)"
    proof (cases "k' = k")
      case True
      with h have "j0 = j'" by (simp add: st)
      with h tm have tt: "timer j = Some t" "timer j' = Some t" by auto
      from sys_inv_owner [OF inv sj tt(1)] obtain c where "intervals s t = Some (k, c)" by blast
      with tt True show ?thesis by (simp add: iv)
    next
      case False
      with h have old: "store s k' = Some j0" by (simp add: st)
      from sys_inv_owner [OF inv old] h obtain c where c: "intervals s t = Some (k', c)" by blast
      have "timer j \<noteq> Some t"
      proof
        assume "timer j = Some t"
        from sys_inv_owner [OF inv sj this] c False show False by auto
      qed
      with c show ?thesis by (auto simp: iv split: option.splits)
    qed
  qed
  have d: "\<forall>t. intervals s' t \<noteq> None \<longrightarrow> t < nextTimer s'"
  proof (intro allI impI)
    fix t assume "intervals s' t \<noteq> None"
    then obtain x where "intervals s t = Some x"
      by (auto simp: iv split: option.splits if_splits)
    with sys_inv_fresh [OF inv] show "t < nextTimer s'" by (simp add: nt)
  qed
  have e: "\<forall>e. e \<in># inflight s' \<longrightarrow>
            (\<exists>j0. store s' (f_jobId e) = Some j0 \<and> f_index e < length (reports j0)
                  \<and> reportKey (f_task e) = reportKey (reports j0 ! f_index e))"
  proof (intro allI impI)
    fix e assume h: "e \<in># inflight s'"
    have old: "\<exists>j0. store s (f_jobId e) = Some j0 \<and> f_index e < length (reports j0)
                  \<and> reportKey (f_task e) = reportKey (reports j0 ! f_index e)"
      using fl h sys_inv_waiting [OF inv, of e] sj by auto
    then obtain j0 where j0: "store s (f_jobId e) = Some j0" "f_index e < length (reports j0)"
      "reportKey (f_task e) = reportKey (reports j0 ! f_index e)" by blast
    show "\<exists>j0. store s' (f_jobId e) = Some j0 \<and> f_index e < length (reports j0)
                  \<and> reportKey (f_task e) = reportKey (reports j0 ! f_index e)"
    proof (cases "f_jobId e = k")
      case False
      with j0 show ?thesis by (simp add: st)
    next
      case True
      with j0 sj have "j0 = j" by simp
      with j0 True len keyat show ?thesis by (simp add: st)
    qed
  qed
  from a b c d e show ?thesis unfolding sys_inv_def by blast
qed

lemma job_inv_beginJob: "job_inv j \<Longrightarrow> job_inv (beginJob j)"
  by (auto simp: job_inv_def beginJob_def)

lemma job_inv_advance: "job_inv j \<Longrightarrow> job_inv (advance i res j)"
  by (auto simp: job_inv_def advance_def Let_def)

lemma job_inv_endJob: "job_inv j \<Longrightarrow> job_inv (endJob TierA TierB e j)"
proof -
  assume a: "job_inv j"
  have t: "\<And>res. job_inv ((advance (f_index e) res j)\<lparr> overall := success, timer := None \<rparr>)"
    using job_inv_advance [OF a] by (auto simp: job_inv_def)
  show ?thesis
    using a t job_inv_advance [OF a]
    by (auto simp: endJob_def job_inv_def split: sum.splits)
qed

lemma sys_inv_stepStart:
  assumes "sys_inv s"
  shows "sys_inv (stepStart k cx s)"
proof (cases "store s k")
  case None
  then have "stepStart k cx s = s" by (simp add: stepStart_def)
  with assms show ?thesis by simp
next
  case (Some j)
  show ?thesis
  proof (rule sys_inv_update [OF assms Some, where j' = "beginJob j"])
    show "store (stepStart k cx s) = (store s)(k \<mapsto> beginJob j)"
      using Some by (simp add: store_stepStart)
    show "job_inv (beginJob j)"
      using sys_inv_job [OF assms Some] by (rule job_inv_beginJob)
    show "timer (beginJob j) = timer j \<or> timer (beginJob j) = None"
      by (simp add: beginJob_def)
    show "intervals (stepStart k cx s) =
              (case timer j of None \<Rightarrow> intervals s
               | Some t \<Rightarrow> if timer (beginJob j) = None then (intervals s)(t := None) else intervals s)"
      using Some by (simp add: intervals_stepStart)
    show "nextTimer (stepStart k cx s) = nextTimer s" by simp
    show "map reportKey (reports (beginJob j)) = map reportKey (reports j)"
      by (simp add: beginJob_def)
    show "\<forall>e. e \<in># inflight (stepStart k cx s) \<longrightarrow> e \<in># inflight s
               \<or> (f_jobId e = k \<and> f_index e < length (reports j)
                   \<and> reportKey (f_task e) = reportKey (reports j ! f_index e))"
      using Some by (auto simp: inflight_stepStart)
  qed
qed

lemma sys_inv_stepEnd:
  assumes "sys_inv s"
  shows "sys_inv (stepEnd TierA TierB e s)"
proof (cases "store s (f_jobId e)")
  case None
  have a: "store (stepEnd TierA TierB e s) = store s" using None by (simp add: store_stepEnd)
  have b: "intervals (stepEnd TierA TierB e s) = intervals s"
    using None by (simp add: intervals_stepEnd)
  have c: "\<forall>x. x \<in># inflight (stepEnd TierA TierB e s) \<longrightarrow> x \<in># inflight s"
    by (auto dest: in_diffD)
  from assms a b c show ?thesis unfolding sys_inv_def by (simp; blast)
next
  case (Some j)
  show ?thesis
  proof (rule sys_inv_update [OF assms Some, where j' = "endJob TierA TierB e j"])
    show "store (stepEnd TierA TierB e s) = (store s)(f_jobId e \<mapsto> endJob TierA TierB e j)"
      using Some by (simp add: store_stepEnd)
    show "job_inv (endJob TierA TierB e j)"
      using sys_inv_job [OF assms Some] by (rule job_inv_endJob)
    show "timer (endJob TierA TierB e j) = timer j \<or> timer (endJob TierA TierB e j) = None"
      by (auto simp: endJob_def split: sum.splits)
    show "intervals (stepEnd TierA TierB e s) =
              (case timer j of None \<Rightarrow> intervals s
               | Some t \<Rightarrow> if timer (endJob TierA TierB e j) = None
                            then (intervals s)(t := None) else intervals s)"
      using Some by (simp add: intervals_stepEnd)
    show "nextTimer (stepEnd TierA TierB e s) = nextTimer s" by simp
    show "map reportKey (reports (endJob TierA TierB e j)) = map reportKey (reports j)"
      by (auto simp: endJob_def split: sum.splits)
    show "\<forall>x. x \<in># inflight (stepEnd TierA TierB e s) \<longrightarrow> x \<in># inflight s
               \<or> (f_jobId x = f_jobId e \<and> f_index x < length (reports j)
                   \<and> reportKey (f_task x) = reportKey (reports j ! f_index x))"
      by (auto dest: in_diffD)
  qed
qed

text \<open>\<^verbatim>\<open>schedule\<close>, \<^verbatim>\<open>ensureJob\<close> and \<^verbatim>\<open>start\<close>.\<close>

lemma store_schedule:
  "store (schedule k cx s) =
     (case store s k of None \<Rightarrow> store s
      | Some j \<Rightarrow> (store s)(k \<mapsto> j\<lparr> timer := Some (nextTimer s) \<rparr>))"
  by (auto simp: schedule_def store_modJob store_clearTimer Let_def split: option.splits)

lemma intervals_schedule:
  "intervals (schedule k cx s) =
     (case store s k of None \<Rightarrow> intervals s
      | Some j \<Rightarrow>
          (case timer j of None \<Rightarrow> (intervals s)(nextTimer s \<mapsto> (k, cx))
           | Some t \<Rightarrow> ((intervals s)(t := None))(nextTimer s \<mapsto> (k, cx))))"
  by (auto simp: schedule_def intervals_clearTimer Let_def split: option.splits)

lemma nextTimer_schedule:
  "nextTimer (schedule k cx s) =
     (case store s k of None \<Rightarrow> nextTimer s | Some j \<Rightarrow> Suc (nextTimer s))"
  by (auto simp: schedule_def Let_def split: option.splits)

lemma inflight_schedule [simp]: "inflight (schedule k cx s) = inflight s"
  by (auto simp: schedule_def Let_def split: option.splits)

lemma inflight_start [simp]: "inflight (snd (start now k pl s)) = inflight s"
  by (auto simp: start_def ensureJob_def Let_def split: option.splits)

lemma sys_inv_ensureJob:
  assumes "sys_inv s"
  shows "sys_inv (snd (ensureJob now k ks s))
       \<and> store (snd (ensureJob now k ks s)) k = Some (fst (ensureJob now k ks s))"
proof (cases "store s k")
  case None
  let ?rs = "map seedTask (case ks of None \<Rightarrow> [] | Some x \<Rightarrow> x)"
  let ?j = "\<lparr> startedAt = now, overall = running,
              progress = \<lparr> p_done = 0, p_total = length ?rs \<rparr>,
              reports = ?rs, outcome = computeOutcome ?rs,
              timer = None, cursor = 0, jobMessage = None \<rparr>"
  let ?s' = "snd (ensureJob now k ks s)"
  have e: "ensureJob now k ks s = (?j, s\<lparr> store := (store s)(k \<mapsto> ?j) \<rparr>)"
    using None by (simp add: ensureJob_def Let_def)
  have nok: "\<forall>t c. intervals s t \<noteq> Some (k, c)"
    using sys_inv_link [OF assms] None by fastforce
  have nof: "\<forall>x. x \<in># inflight s \<longrightarrow> f_jobId x \<noteq> k"
    using sys_inv_waiting [OF assms] None by fastforce
  have a: "\<forall>k' j0. store ?s' k' = Some j0 \<longrightarrow> job_inv j0"
    using sys_inv_job [OF assms] by (auto simp: e job_inv_def)
  have b: "\<forall>t k' c. intervals ?s' t = Some (k', c) \<longrightarrow> (\<exists>j0. store ?s' k' = Some j0 \<and> timer j0 = Some t)"
    using sys_inv_link [OF assms] nok by (auto simp: e)
  have c: "\<forall>k' j0 t. store ?s' k' = Some j0 \<and> timer j0 = Some t \<longrightarrow> (\<exists>c. intervals ?s' t = Some (k', c))"
    using sys_inv_owner [OF assms] by (auto simp: e)
  have d: "\<forall>t. intervals ?s' t \<noteq> None \<longrightarrow> t < nextTimer ?s'"
    using sys_inv_fresh [OF assms] by (auto simp: e)
  have f: "\<forall>x. x \<in># inflight ?s' \<longrightarrow>
            (\<exists>j0. store ?s' (f_jobId x) = Some j0 \<and> f_index x < length (reports j0)
                  \<and> reportKey (f_task x) = reportKey (reports j0 ! f_index x))"
    using sys_inv_waiting [OF assms] nof by (auto simp: e)
  have "sys_inv ?s'" using a b c d f unfolding sys_inv_def by blast
  then show ?thesis by (simp add: e)
next
  case (Some j)
  with assms show ?thesis by (simp add: ensureJob_def)
qed

lemma sys_inv_finish_empty:
  assumes "sys_inv s" and "store s k = Some j" and "p_total (progress j) = 0"
  shows "sys_inv (modJob k (\<lambda>j. j\<lparr> overall := success, outcome := computeOutcome (reports j) \<rparr>) s)"
proof (rule sys_inv_update [OF assms(1,2),
      where j' = "j\<lparr> overall := success, outcome := computeOutcome (reports j) \<rparr>"])
  let ?s' = "modJob k (\<lambda>j. j\<lparr> overall := success, outcome := computeOutcome (reports j) \<rparr>) s"
  have ji: "job_inv j" using assms(1,2) by (rule sys_inv_job)
  with assms(3) have tn: "timer j = None" by (cases "timer j") (auto simp: job_inv_def)
  show "store ?s' = (store s)(k \<mapsto> j\<lparr> overall := success, outcome := computeOutcome (reports j) \<rparr>)"
    using assms(2) by (simp add: store_modJob)
  show "job_inv (j\<lparr> overall := success, outcome := computeOutcome (reports j) \<rparr>)"
    using ji tn by (simp add: job_inv_def)
  show "timer (j\<lparr> overall := success, outcome := computeOutcome (reports j) \<rparr>) = timer j
        \<or> timer (j\<lparr> overall := success, outcome := computeOutcome (reports j) \<rparr>) = None"
    by simp
  show "intervals ?s' =
          (case timer j of None \<Rightarrow> intervals s
           | Some t \<Rightarrow> if timer (j\<lparr> overall := success, outcome := computeOutcome (reports j) \<rparr>) = None
                        then (intervals s)(t := None) else intervals s)"
    using tn by simp
  show "nextTimer ?s' = nextTimer s" by simp
  show "map reportKey (reports (j\<lparr> overall := success, outcome := computeOutcome (reports j) \<rparr>))
          = map reportKey (reports j)" by simp
  show "\<forall>e. e \<in># inflight ?s' \<longrightarrow> e \<in># inflight s
               \<or> (f_jobId e = k \<and> f_index e < length (reports j)
                   \<and> reportKey (f_task e) = reportKey (reports j ! f_index e))"
    by simp
qed

lemma sys_inv_schedule:
  assumes "sys_inv s" and "store s k = Some j" and "overall j = running"
    and "timer j = None" and "p_total (progress j) \<noteq> 0"
  shows "sys_inv (schedule k cx s)"
proof -
  have ji: "job_inv j" using assms(1,2) by (rule sys_inv_job)
  with assms have j': "job_inv (j\<lparr> timer := Some (nextTimer s) \<rparr>)"
    by (auto simp: job_inv_def)
  have fresh: "intervals s (nextTimer s) = None"
  proof (cases "intervals s (nextTimer s)")
    case (Some x)
    with assms(1) have "nextTimer s < nextTimer s" by (rule sys_inv_fresh)
    then show ?thesis by simp
  qed simp
  have nok: "\<forall>t c. intervals s t \<noteq> Some (k, c)"
  proof (intro allI notI)
    fix t c assume "intervals s t = Some (k, c)"
    with assms(1) have "\<exists>j. store s k = Some j \<and> timer j = Some t" by (rule sys_inv_link)
    with assms(2,4) show False by simp
  qed
  have st: "store (schedule k cx s) = (store s)(k \<mapsto> j\<lparr> timer := Some (nextTimer s) \<rparr>)"
    using assms(2) by (simp add: store_schedule)
  have iv: "intervals (schedule k cx s) = (intervals s)(nextTimer s \<mapsto> (k, cx))"
    using assms(2,4) by (simp add: intervals_schedule)
  have nt: "nextTimer (schedule k cx s) = Suc (nextTimer s)"
    using assms(2) by (simp add: nextTimer_schedule)
  have a: "\<forall>k' j'. store (schedule k cx s) k' = Some j' \<longrightarrow> job_inv j'"
    using sys_inv_job [OF assms(1)] j' by (auto simp: st)
  have b: "\<forall>t k' c. intervals (schedule k cx s) t = Some (k', c)
             \<longrightarrow> (\<exists>j'. store (schedule k cx s) k' = Some j' \<and> timer j' = Some t)"
  proof (intro allI impI)
    fix t k' c assume h: "intervals (schedule k cx s) t = Some (k', c)"
    show "\<exists>j'. store (schedule k cx s) k' = Some j' \<and> timer j' = Some t"
    proof (cases "t = nextTimer s")
      case True
      with h have "k' = k" by (simp add: iv)
      with True show ?thesis by (simp add: st)
    next
      case False
      with h have old: "intervals s t = Some (k', c)" by (simp add: iv)
      with nok have "k' \<noteq> k" by auto
      moreover from sys_inv_link [OF assms(1) old]
      obtain j0 where "store s k' = Some j0" "timer j0 = Some t" by blast
      ultimately show ?thesis by (simp add: st)
    qed
  qed
  have c: "\<forall>k' j' t. store (schedule k cx s) k' = Some j' \<and> timer j' = Some t
             \<longrightarrow> (\<exists>c. intervals (schedule k cx s) t = Some (k', c))"
  proof (intro allI impI)
    fix k' j' t
    assume h: "store (schedule k cx s) k' = Some j' \<and> timer j' = Some t"
    show "\<exists>c. intervals (schedule k cx s) t = Some (k', c)"
    proof (cases "k' = k")
      case True
      with h show ?thesis by (auto simp: st iv)
    next
      case False
      with h have old: "store s k' = Some j'" by (simp add: st)
      from sys_inv_owner [OF assms(1) old] h obtain c where c: "intervals s t = Some (k', c)" by blast
      with fresh have "t \<noteq> nextTimer s" by auto
      with c show ?thesis by (simp add: iv)
    qed
  qed
  have d: "\<forall>t. intervals (schedule k cx s) t \<noteq> None \<longrightarrow> t < nextTimer (schedule k cx s)"
    using sys_inv_fresh [OF assms(1)] by (auto simp: iv nt less_Suc_eq)
  have e: "\<forall>x. x \<in># inflight (schedule k cx s) \<longrightarrow>
            (\<exists>j0. store (schedule k cx s) (f_jobId x) = Some j0 \<and> f_index x < length (reports j0)
                  \<and> reportKey (f_task x) = reportKey (reports j0 ! f_index x))"
  proof (intro allI impI)
    fix x assume "x \<in># inflight (schedule k cx s)"
    then have "x \<in># inflight s" by simp
    from sys_inv_waiting [OF assms(1) this] assms(2)
    show "\<exists>j0. store (schedule k cx s) (f_jobId x) = Some j0 \<and> f_index x < length (reports j0)
                  \<and> reportKey (f_task x) = reportKey (reports j0 ! f_index x)"
      by (cases "f_jobId x = k") (auto simp: st)
  qed
  from a b c d e show ?thesis unfolding sys_inv_def by blast
qed

lemma sys_inv_start:
  assumes "sys_inv s"
  shows "sys_inv (snd (start now k pl s))"
proof (cases "k = []")
  case True
  with assms show ?thesis by (simp add: start_def)
next
  case False
  obtain j s1 where e: "ensureJob now k (p_reportKeys pl) s = (j, s1)"
    by (cases "ensureJob now k (p_reportKeys pl) s")
  from sys_inv_ensureJob [OF assms, of now k "p_reportKeys pl"] e
  have s1: "sys_inv s1" and sj: "store s1 k = Some j" by simp_all
  show ?thesis
  proof (cases "p_total (progress j) = 0")
    case True
    with False e sys_inv_finish_empty [OF s1 sj] show ?thesis by (simp add: start_def)
  next
    case nz: False
    show ?thesis
    proof (cases "overall j = running \<and> timer j = None")
      case True
      with nz False e sys_inv_schedule [OF s1 sj] show ?thesis by (simp add: start_def)
    next
      case False
      with nz \<open>k \<noteq> []\<close> e s1 show ?thesis by (auto simp: start_def)
    qed
  qed
qed

lemma sys_inv_initial: "sys_inv initial"
  by (simp add: sys_inv_def initial_def)

lemma reachable_inv: "reachable s \<Longrightarrow> sys_inv s"
  by (induction rule: reachable.induct)
     (simp_all add: sys_inv_initial sys_inv_start sys_inv_stepStart sys_inv_stepEnd)

lemma store_start_other: "k' \<noteq> k \<Longrightarrow> store (snd (start now k pl s)) k' = store s k'"
  by (auto simp: start_def ensureJob_def store_modJob store_schedule Let_def
      split: option.splits)

lemma store_stepStart_other: "k' \<noteq> k \<Longrightarrow> store (stepStart k cx s) k' = store s k'"
  by (simp add: store_stepStart split: option.splits)

lemma store_stepEnd_other:
  "k' \<noteq> f_jobId e \<Longrightarrow> store (stepEnd TierA TierB e s) k' = store s k'"
  by (simp add: store_stepEnd split: option.splits)

lemma reachable_no_empty_id: "reachable s \<Longrightarrow> store s [] = None"
proof (induction rule: reachable.induct)
  case reach_initial
  show ?case by (simp add: initial_def)
next
  case (reach_start s now jobId pl)
  then show ?case
    by (cases "jobId = []") (simp_all add: store_start_other, simp add: start_def)
next
  case (reach_tick s t jobId cx)
  then show ?case
    by (cases "jobId = []") (simp_all add: store_stepStart_other, simp add: stepStart_def)
next
  case (reach_done s e TierA TierB)
  then show ?case
    by (cases "f_jobId e = []") (simp_all add: store_stepEnd_other, simp add: store_stepEnd)
qed

text \<open>The tier calls, the merge and the filename rules.\<close>

lemma resolveTiers_throws:
  "fst (resolveTiers TierA TierB k cx r) = Inl err \<longleftrightarrow>
     (TierA (argsA k cx r) = Inl err
      \<or> (\<exists>rawA. TierA (argsA k cx r) = Inr rawA \<and> aNeedsB (normalizeTierResult rawA)
                 \<and> TierB (argsB k cx r) = Inl err))"
  by (auto simp: resolveTiers_def Let_def split: sum.splits)

lemma start_new_job:
  assumes "jobId \<noteq> []" and "store s jobId = None"
  shows "\<exists>j. store (snd (start now jobId pl s)) jobId = Some j
           \<and> reports j = map seedTask (case p_reportKeys pl of None \<Rightarrow> [] | Some ks \<Rightarrow> ks)
           \<and> p_total (progress j) = length (reports j)
           \<and> p_done (progress j) = 0 \<and> cursor j = 0
           \<and> overall j = (if reports j = [] then success else running)"
  using assms
  by (auto simp: start_def ensureJob_def store_modJob store_schedule Let_def)




lemma resolveTiers_calls:
  assumes "TierA (argsA k cx r) = Inr rawA"
  shows "CallTierB \<in> set (snd (resolveTiers TierA TierB k cx r)) \<longleftrightarrow> aNeedsB (normalizeTierResult rawA)"
  using assms by (auto simp: resolveTiers_def Let_def split: sum.splits)


lemma resolveTiers_result:
  assumes "TierA (argsA k cx r) = Inr rawA"
    and "fst (resolveTiers TierA TierB k cx r) = Inr result"
  shows "(\<not> aNeedsB (normalizeTierResult rawA) \<and> result = normalizeTierResult rawA)
       \<or> (aNeedsB (normalizeTierResult rawA) \<and>
           (\<exists>rawB. TierB (argsB k cx r) = Inr rawB
              \<and> result = Some (mergeTiers (normalizeTierResult rawA) (normalizeTierResult rawB))))"
  using assms by (auto simp: resolveTiers_def Let_def split: sum.splits if_splits)





lemma normalize_Some:
  assumes "normalizeTierResult ro = Some res"
  shows "\<exists>ra. ro = Some ra
           \<and> t_locatedSource res = js_or (r_locatedSource ra) JNull
           \<and> t_mappedCount res = (if isFinite (r_mappedCount ra) then r_mappedCount ra else JNum (Fin 0))
           \<and> t_totalFields res = (if isFinite (r_totalFields ra) then r_totalFields ra else JNum (Fin 0))
           \<and> t_message res = js_or (r_message ra) JNull"
  using assms by (cases ro) (auto simp: normalizeTierResult_def Let_def)

lemma finite_coalesce: "isFinite v \<Longrightarrow> coalesce v w = v"
  by (cases v) (auto simp: coalesce_def)

lemma merged_message:
  "js_or (t_message (mergeTiers (normalizeTierResult rawA) (normalizeTierResult rawB))) JNull
     = js_or (oget r_message rawA) (js_or (oget r_message rawB) JNull)"
  by (cases rawA; cases rawB)
     (auto simp: mergeTiers_def normalizeTierResult_def oget_def js_or_def Let_def)

lemma merged_locatedSource:
  "js_or (t_locatedSource (mergeTiers (normalizeTierResult rawA) (normalizeTierResult rawB))) JNull
     = js_or (oget r_locatedSource rawA) (js_or (oget r_locatedSource rawB) JNull)"
  by (cases rawA; cases rawB)
     (auto simp: mergeTiers_def normalizeTierResult_def oget_def js_or_def Let_def)

lemma merged_mappedCount:
  "t_mappedCount (mergeTiers (normalizeTierResult rawA) (normalizeTierResult rawB))
     = (case rawA of
          Some ra \<Rightarrow> if isFinite (r_mappedCount ra) then r_mappedCount ra else JNum (Fin 0)
        | None \<Rightarrow> (case rawB of
              Some rb \<Rightarrow> if isFinite (r_mappedCount rb) then r_mappedCount rb else JNum (Fin 0)
            | None \<Rightarrow> JNum (Fin 0)))"
  by (cases rawA; cases rawB)
     (auto simp: mergeTiers_def normalizeTierResult_def oget_def coalesce_def finite_coalesce Let_def)

lemma merged_totalFields:
  "t_totalFields (mergeTiers (normalizeTierResult rawA) (normalizeTierResult rawB))
     = (case rawA of
          Some ra \<Rightarrow> if isFinite (r_totalFields ra) then r_totalFields ra else JNum (Fin 0)
        | None \<Rightarrow> (case rawB of
              Some rb \<Rightarrow> if isFinite (r_totalFields rb) then r_totalFields rb else JNum (Fin 0)
            | None \<Rightarrow> JNum (Fin 0)))"
  by (cases rawA; cases rawB)
     (auto simp: mergeTiers_def normalizeTierResult_def oget_def coalesce_def finite_coalesce Let_def)


text \<open>What the end of a step writes.\<close>

lemma stepEnd_completed:
  assumes "store s (f_jobId e) = Some j"
    and "fst (resolveTiers TierA TierB (f_jobId e) (f_ctx e) (f_task e)) = Inr result"
  shows "\<exists>j'. store (stepEnd TierA TierB e s) (f_jobId e) = Some j'
           \<and> cursor j' = Suc (cursor j)
           \<and> reports j' = (reports j)[f_index e := applyResult result (reports j ! f_index e)]
           \<and> p_done (progress j') = min (Suc (cursor j)) (p_total (progress j))
           \<and> outcome j' = computeOutcome (reports j')
           \<and> overall j' = (if Suc (cursor j) \<ge> length (reports j) then success else overall j)"
  using assms by (simp add: store_stepEnd endJob_def advance_def Let_def)

lemma stepEnd_failed:
  assumes "store s (f_jobId e) = Some j"
    and "fst (resolveTiers TierA TierB (f_jobId e) (f_ctx e) (f_task e)) = Inl err"
  shows "store (stepEnd TierA TierB e s) (f_jobId e) =
           Some (j\<lparr> overall := failed, jobMessage := Some (errText err), timer := None \<rparr>)"
  using assms by (simp add: store_stepEnd endJob_def)

lemma store_step:
  assumes "store s k = Some j" and "overall j = running" and "cursor j < length (reports j)"
  shows "store (step TierA TierB k cx s) =
           (store s)(k \<mapsto> endJob TierA TierB
              \<lparr> f_jobId = k, f_index = cursor j, f_task = reports j ! cursor j, f_ctx = cx \<rparr> j)"
  using assms
  by (simp add: step_def store_stepEnd store_stepStart beginJob_def)

lemma inflight_step:
  assumes "store s k = Some j" and "overall j = running" and "cursor j < length (reports j)"
  shows "inflight (step TierA TierB k cx s) = inflight s"
  using assms by (simp add: step_def inflight_stepStart)

lemma reachable_step:
  assumes "reachable s" and "intervals s t = Some (k, cx)"
  shows "reachable (step TierA TierB k cx s)"
proof (cases "store s k")
  case None
  then have "step TierA TierB k cx s = s" by (simp add: step_def)
  with assms(1) show ?thesis by simp
next
  case (Some j)
  have b: "reachable (stepStart k cx s)" using assms by (rule reach_tick)
  show ?thesis
  proof (cases "overall j = running \<and> cursor j < length (reports j)")
    case True
    let ?e = "\<lparr> f_jobId = k, f_index = cursor j, f_task = reports j ! cursor j, f_ctx = cx \<rparr>"
    have "?e \<in># inflight (stepStart k cx s)"
      using Some True by (simp add: inflight_stepStart)
    with b have "reachable (stepEnd TierA TierB ?e (stepStart k cx s))" by (rule reach_done)
    with Some True show ?thesis by (simp add: step_def)
  next
    case False
    with Some b show ?thesis by (auto simp: step_def)
  qed
qed

text \<open>The run with two reports.\<close>

lemma stub_resolve:
  "resolveTiers TierA_locateAndMap TierB_locateAndMap k cx r =
     (Inr (Some \<lparr> t_fieldsMapped = JStr ''no'', t_attributesMapped = JStr ''no'',
                  t_locatedSource = JNull, t_mappedCount = JNum (Fin 0),
                  t_totalFields = JNum (Fin 0), t_message = JNull \<rparr>), [CallTierA])"
  by (simp add: resolveTiers_def TierA_locateAndMap_def normalizeTierResult_def aNeedsB_def
      coalesce_def js_or_def Let_def)

lemma demoStarted_eq:
  "demoStarted =
     \<lparr> store = [''job1'' \<mapsto>
          \<lparr> startedAt = 0, overall = running, progress = \<lparr> p_done = 0, p_total = 2 \<rparr>,
            reports = [seedTask ''soi'', seedTask ''pands''],
            outcome = \<lparr> fieldsAnyNo = False, attributesAnyNo = False,
                        fieldsAllYes = False, attributesAllYes = False \<rparr>,
            timer = Some 0, cursor = 0, jobMessage = None \<rparr>],
       intervals = [0 \<mapsto> (''job1'', demoCtx)], nextTimer = Suc 0, inflight = {#} \<rparr>"
  by (simp add: demoStarted_def start_def ensureJob_def demoPayload_def initial_def
      schedule_def clearTimer_def modJob_def Let_def computeOutcome_def seedTask_def
      js_or_def demoCtx_def numeral_2_eq_2)

lemma demoStarted_job:
  "store demoStarted ''job1'' = Some
          \<lparr> startedAt = 0, overall = running, progress = \<lparr> p_done = 0, p_total = 2 \<rparr>,
            reports = [seedTask ''soi'', seedTask ''pands''],
            outcome = \<lparr> fieldsAnyNo = False, attributesAnyNo = False,
                        fieldsAllYes = False, attributesAllYes = False \<rparr>,
            timer = Some 0, cursor = 0, jobMessage = None \<rparr>"
  by (simp add: demoStarted_eq)

lemma reachable_demoStarted: "reachable demoStarted"
  unfolding demoStarted_def by (rule reach_start) (rule reach_initial)

lemma reachable_demoTicked: "reachable demoTicked"
  unfolding demoTicked_def
  by (rule reachable_step [OF reachable_demoStarted, of 0]) (simp add: demoStarted_eq)

lemma demoTicked_job:
  "store demoTicked ''job1'' = Some
          \<lparr> startedAt = 0, overall = running, progress = \<lparr> p_done = 1, p_total = 2 \<rparr>,
            reports = [(seedTask ''soi'')\<lparr> fieldsMapped := ''no'', attributesMapped := ''no'' \<rparr>,
                       seedTask ''pands''],
            outcome = \<lparr> fieldsAnyNo = True, attributesAnyNo = True,
                        fieldsAllYes = False, attributesAllYes = False \<rparr>,
            timer = Some 0, cursor = 1, jobMessage = None \<rparr>"
  by (simp add: demoTicked_def store_step [OF demoStarted_job] endJob_def stub_resolve
      advance_def applyResult_def terminalize_def oget_def computeOutcome_def seedTask_def
      js_or_def Let_def numeral_2_eq_2)

lemma demoTicked_other: "k \<noteq> ''job1'' \<Longrightarrow> store demoTicked k = None"
proof -
  assume "k \<noteq> ''job1''"
  moreover have "store demoStarted k = (if k = ''job1'' then store demoStarted ''job1'' else None)"
    by (simp add: demoStarted_eq)
  ultimately show ?thesis
    by (simp add: demoTicked_def store_step [OF demoStarted_job])
qed







lemma errText_empty:
  "errText err = [] \<longleftrightarrow> th_message err = Some [] \<or> (th_message err = None \<and> th_text err = [])"
  by (cases "th_message err") (simp_all add: errText_def)

lemma demoBegun_reachable: "reachable (stepStart ''job1'' demoCtx demoStarted)"
  by (rule reach_tick [OF reachable_demoStarted, of 0]) (simp add: demoStarted_eq)

lemma demoBegun_inflight: "demoStep0 \<in># inflight (stepStart ''job1'' demoCtx demoStarted)"
  by (simp add: inflight_stepStart demoStarted_job demoStep0_def)

lemma demoBegun_job:
  "store (stepStart ''job1'' demoCtx demoStarted) ''job1'' = store demoStarted ''job1''"
  by (simp add: store_stepStart demoStarted_job beginJob_def)

lemma demoStep0_fields [simp]:
  "f_jobId demoStep0 = ''job1''" "f_index demoStep0 = 0"
  "f_task demoStep0 = seedTask ''soi''" "f_ctx demoStep0 = demoCtx"
  by (simp_all add: demoStep0_def)

text \<open>The merged axis in terms of what the two tiers returned.\<close>

lemma normalized_axis_yes:
  "oget t_fieldsMapped (normalizeTierResult ro) = JStr ''yes'' \<longleftrightarrow>
     oget (\<lambda>r. coalesce (r_fieldsMapped r) (r_located r)) ro = JStr ''yes''"
  "oget t_attributesMapped (normalizeTierResult ro) = JStr ''yes'' \<longleftrightarrow>
     oget (\<lambda>r. coalesce (r_attributesMapped r) (r_mapped r)) ro = JStr ''yes''"
  by (cases ro; auto simp: normalizeTierResult_def oget_def js_or_def Let_def)+

lemma normalized_axis_settled:
  "oget t_fieldsMapped (normalizeTierResult ro) \<in> {JStr ''yes'', JStr ''no''} \<longleftrightarrow>
     oget (\<lambda>r. coalesce (r_fieldsMapped r) (r_located r)) ro \<in> {JStr ''yes'', JStr ''no''}"
  "oget t_attributesMapped (normalizeTierResult ro) \<in> {JStr ''yes'', JStr ''no''} \<longleftrightarrow>
     oget (\<lambda>r. coalesce (r_attributesMapped r) (r_mapped r)) ro \<in> {JStr ''yes'', JStr ''no''}"
  by (cases ro; auto simp: normalizeTierResult_def oget_def js_or_def Let_def)+

lemma normalized_axis_open:
  "oget t_fieldsMapped (normalizeTierResult ro) = JStr ''pending''
     \<or> \<not> truthy (oget t_fieldsMapped (normalizeTierResult ro)) \<longleftrightarrow>
   oget (\<lambda>r. coalesce (r_fieldsMapped r) (r_located r)) ro = JStr ''pending''
     \<or> \<not> truthy (oget (\<lambda>r. coalesce (r_fieldsMapped r) (r_located r)) ro)"
  "oget t_attributesMapped (normalizeTierResult ro) = JStr ''pending''
     \<or> \<not> truthy (oget t_attributesMapped (normalizeTierResult ro)) \<longleftrightarrow>
   oget (\<lambda>r. coalesce (r_attributesMapped r) (r_mapped r)) ro = JStr ''pending''
     \<or> \<not> truthy (oget (\<lambda>r. coalesce (r_attributesMapped r) (r_mapped r)) ro)"
  by (cases ro; auto simp: normalizeTierResult_def oget_def js_or_def Let_def)+

lemma merged_fields_yes:
  "t_fieldsMapped (mergeTiers (normalizeTierResult rawA) (normalizeTierResult rawB)) = JStr ''yes'' \<longleftrightarrow>
     oget (\<lambda>r. coalesce (r_fieldsMapped r) (r_located r)) rawA = JStr ''yes''
     \<or> ((oget (\<lambda>r. coalesce (r_fieldsMapped r) (r_located r)) rawA = JStr ''pending''
          \<or> \<not> truthy (oget (\<lambda>r. coalesce (r_fieldsMapped r) (r_located r)) rawA))
         \<and> oget (\<lambda>r. coalesce (r_fieldsMapped r) (r_located r)) rawB = JStr ''yes'')"
proof -
  let ?a = "oget t_fieldsMapped (normalizeTierResult rawA)"
  let ?b = "oget t_fieldsMapped (normalizeTierResult rawB)"
  have m: "t_fieldsMapped (mergeTiers (normalizeTierResult rawA) (normalizeTierResult rawB))
         = (if truthy ?a \<and> ?a \<noteq> JStr ''pending'' then ?a else coalesce ?b (JStr ''pending''))"
    by (simp add: mergeTiers_def)
  have c: "coalesce ?b (JStr ''pending'') = JStr ''yes'' \<longleftrightarrow> ?b = JStr ''yes''"
    by (auto simp: coalesce_def)
  show ?thesis
    unfolding m
    using normalized_axis_yes(1) [of rawA] normalized_axis_yes(1) [of rawB]
      normalized_axis_open(1) [of rawA] c
    by (cases "truthy ?a \<and> ?a \<noteq> JStr ''pending''") auto
qed

lemma merged_attributes_yes:
  "t_attributesMapped (mergeTiers (normalizeTierResult rawA) (normalizeTierResult rawB)) = JStr ''yes'' \<longleftrightarrow>
     oget (\<lambda>r. coalesce (r_attributesMapped r) (r_mapped r)) rawA = JStr ''yes''
     \<or> ((oget (\<lambda>r. coalesce (r_attributesMapped r) (r_mapped r)) rawA = JStr ''pending''
          \<or> \<not> truthy (oget (\<lambda>r. coalesce (r_attributesMapped r) (r_mapped r)) rawA))
         \<and> oget (\<lambda>r. coalesce (r_attributesMapped r) (r_mapped r)) rawB = JStr ''yes'')"
proof -
  let ?a = "oget t_attributesMapped (normalizeTierResult rawA)"
  let ?b = "oget t_attributesMapped (normalizeTierResult rawB)"
  have m: "t_attributesMapped (mergeTiers (normalizeTierResult rawA) (normalizeTierResult rawB))
         = (if truthy ?a \<and> ?a \<noteq> JStr ''pending'' then ?a else coalesce ?b (JStr ''pending''))"
    by (simp add: mergeTiers_def)
  have c: "coalesce ?b (JStr ''pending'') = JStr ''yes'' \<longleftrightarrow> ?b = JStr ''yes''"
    by (auto simp: coalesce_def)
  show ?thesis
    unfolding m
    using normalized_axis_yes(2) [of rawA] normalized_axis_yes(2) [of rawB]
      normalized_axis_open(2) [of rawA] c
    by (cases "truthy ?a \<and> ?a \<noteq> JStr ''pending''") auto
qed

lemma merged_counts_finite:
  "isFinite (t_mappedCount (mergeTiers (normalizeTierResult rawA) (normalizeTierResult rawB)))"
  "isFinite (t_totalFields (mergeTiers (normalizeTierResult rawA) (normalizeTierResult rawB)))"
  by (cases rawA; cases rawB; simp add: merged_mappedCount merged_totalFields)+

lemma applyResult_written:
  assumes A: "TierA (argsA k cx r0) = Inr rawA"
    and R: "fst (resolveTiers TierA TierB k cx r0) = Inr result"
    and B: "if aNeedsB (normalizeTierResult rawA) then TierB (argsB k cx r0) = Inr rawB
            else rawB = None"
  shows "applyResult result r =
     \<lparr> reportKey = reportKey r,
       fieldsMapped =
         (if oget (\<lambda>r. coalesce (r_fieldsMapped r) (r_located r)) rawA = JStr ''yes''
             \<or> ((oget (\<lambda>r. coalesce (r_fieldsMapped r) (r_located r)) rawA = JStr ''pending''
                  \<or> \<not> truthy (oget (\<lambda>r. coalesce (r_fieldsMapped r) (r_located r)) rawA))
                 \<and> oget (\<lambda>r. coalesce (r_fieldsMapped r) (r_located r)) rawB = JStr ''yes'')
          then ''yes'' else ''no''),
       attributesMapped =
         (if oget (\<lambda>r. coalesce (r_attributesMapped r) (r_mapped r)) rawA = JStr ''yes''
             \<or> ((oget (\<lambda>r. coalesce (r_attributesMapped r) (r_mapped r)) rawA = JStr ''pending''
                  \<or> \<not> truthy (oget (\<lambda>r. coalesce (r_attributesMapped r) (r_mapped r)) rawA))
                 \<and> oget (\<lambda>r. coalesce (r_attributesMapped r) (r_mapped r)) rawB = JStr ''yes'')
          then ''yes'' else ''no''),
       locatedSource =
         (if oget (\<lambda>r. coalesce (r_fieldsMapped r) (r_located r)) rawA = JStr ''yes''
             \<or> ((oget (\<lambda>r. coalesce (r_fieldsMapped r) (r_located r)) rawA = JStr ''pending''
                  \<or> \<not> truthy (oget (\<lambda>r. coalesce (r_fieldsMapped r) (r_located r)) rawA))
                 \<and> oget (\<lambda>r. coalesce (r_fieldsMapped r) (r_located r)) rawB = JStr ''yes'')
          then js_or (oget r_locatedSource rawA) (js_or (oget r_locatedSource rawB) JNull)
          else JNull),
       mappedCount =
         (case rawA of
            Some ra \<Rightarrow> if isFinite (r_mappedCount ra) then r_mappedCount ra else JNum (Fin 0)
          | None \<Rightarrow> (case rawB of
                Some rb \<Rightarrow> if isFinite (r_mappedCount rb) then r_mappedCount rb else JNum (Fin 0)
              | None \<Rightarrow> JNum (Fin 0))),
       totalFields =
         (case rawA of
            Some ra \<Rightarrow> if isFinite (r_totalFields ra) then r_totalFields ra else JNum (Fin 0)
          | None \<Rightarrow> (case rawB of
                Some rb \<Rightarrow> if isFinite (r_totalFields rb) then r_totalFields rb else JNum (Fin 0)
              | None \<Rightarrow> JNum (Fin 0))),
       message = js_or (oget r_message rawA) (js_or (oget r_message rawB) JNull) \<rparr>"
proof -
  let ?nA = "normalizeTierResult rawA" and ?nB = "normalizeTierResult rawB"
  let ?m = "mergeTiers ?nA ?nB"
  have res: "result = (if aNeedsB ?nA then Some ?m else ?nA)"
    using resolveTiers_result [of TierA k cx r0 rawA TierB result] A R B
    by (auto split: if_splits)
  show ?thesis
  proof (cases "aNeedsB ?nA")
    case True
    then have r: "result = Some ?m" using res by simp
    have f: "terminalize (t_fieldsMapped ?m) =
               (if t_fieldsMapped ?m = JStr ''yes'' then ''yes'' else ''no'')"
      and a: "terminalize (t_attributesMapped ?m) =
               (if t_attributesMapped ?m = JStr ''yes'' then ''yes'' else ''no'')"
      by (simp_all add: terminalize_def)
    have c1: "(if isFinite (t_mappedCount ?m) then t_mappedCount ?m else JNum (Fin 0)) = t_mappedCount ?m"
      and c2: "(if isFinite (t_totalFields ?m) then t_totalFields ?m else JNum (Fin 0)) = t_totalFields ?m"
      by (simp_all add: merged_counts_finite)
    have ap: "applyResult result r =
        r\<lparr> fieldsMapped := terminalize (t_fieldsMapped ?m),
           attributesMapped := terminalize (t_attributesMapped ?m),
           locatedSource := (if terminalize (t_fieldsMapped ?m) = ''yes''
                             then js_or (t_locatedSource ?m) JNull else JNull),
           mappedCount := t_mappedCount ?m,
           totalFields := t_totalFields ?m,
           message := js_or (t_message ?m) JNull \<rparr>"
      unfolding r applyResult_def oget_def option.case Let_def c1 c2 by (rule refl)
    have ls: "js_or (t_locatedSource ?m) JNull =
                js_or (oget r_locatedSource rawA) (js_or (oget r_locatedSource rawB) JNull)"
      and ms: "js_or (t_message ?m) JNull =
                js_or (oget r_message rawA) (js_or (oget r_message rawB) JNull)"
      by (rule merged_locatedSource, rule merged_message)
    show ?thesis
      unfolding ap f a ls ms merged_fields_yes merged_attributes_yes
        merged_mappedCount merged_totalFields
      by (cases r) auto
  next
    case False
    then obtain ra resA where ra: "rawA = Some ra" "?nA = Some resA"
      by (cases rawA) (auto simp: aNeedsB_def normalizeTierResult_def Let_def)
    from False res have r: "result = Some resA" using ra by simp
    from False B have nb: "rawB = None" by simp
    from False ra have st: "t_fieldsMapped resA = JStr ''yes'' \<or> t_fieldsMapped resA = JStr ''no''"
      "t_attributesMapped resA = JStr ''yes'' \<or> t_attributesMapped resA = JStr ''no''"
      by (auto simp: aNeedsB_def)
    from normalize_Some [OF ra(2)] ra(1)
    have ns: "t_locatedSource resA = js_or (r_locatedSource ra) JNull"
      "t_mappedCount resA = (if isFinite (r_mappedCount ra) then r_mappedCount ra else JNum (Fin 0))"
      "t_totalFields resA = (if isFinite (r_totalFields ra) then r_totalFields ra else JNum (Fin 0))"
      "t_message resA = js_or (r_message ra) JNull"
      by auto
    have yf: "t_fieldsMapped resA = JStr ''yes'' \<longleftrightarrow>
               coalesce (r_fieldsMapped ra) (r_located ra) = JStr ''yes''"
      using normalized_axis_yes(1) [of rawA] ra by (simp add: oget_def)
    have ya: "t_attributesMapped resA = JStr ''yes'' \<longleftrightarrow>
               coalesce (r_attributesMapped ra) (r_mapped ra) = JStr ''yes''"
      using normalized_axis_yes(2) [of rawA] ra by (simp add: oget_def)
    show ?thesis
      using st
      by (cases r)
         (auto simp: applyResult_def r ra nb oget_def terminalize_def ns yf ya js_or_def Let_def)
  qed
qed

section \<open>The claims\<close>

subsection \<open>C1: start is idempotent\<close>

text \<open>
  Claim C1. In every reachable state, for a job that exists, is running and has a live
  timer, a further call of \<^verbatim>\<open>start\<close> with that job id and any payload returns
  \<^verbatim>\<open>{started: true, already: true}\<close> and leaves the whole state as it was: no interval
  is created, the reports are not seeded again, and the cursor and every task keep their
  values. The job has at most one live interval.
\<close>

theorem start_idempotent:
  assumes "reachable s" and "store s jobId = Some j"
    and "overall j = running" and "timer j \<noteq> None"
  shows "start now jobId pl s =
           (Inr \<lparr> ack_jobId = jobId, started = True, empty = False, already = True \<rparr>, s)
         \<and> (\<forall>t t' c c'. intervals s t = Some (jobId, c) \<and> intervals s t' = Some (jobId, c')
               \<longrightarrow> t = t')"
proof -
  have inv: "sys_inv s" using assms(1) by (rule reachable_inv)
  have ji: "job_inv j" using inv assms(2) by (rule sys_inv_job)
  have ne: "jobId \<noteq> []" using reachable_no_empty_id [OF assms(1)] assms(2) by auto
  have tot: "p_total (progress j) \<noteq> 0" using ji assms(4) by (auto simp: job_inv_def)
  have a: "start now jobId pl s =
           (Inr \<lparr> ack_jobId = jobId, started = True, empty = False, already = True \<rparr>, s)"
    using ne tot assms(2,3,4) by (simp add: start_def ensureJob_def)
  have b: "\<forall>t t' c c'. intervals s t = Some (jobId, c) \<and> intervals s t' = Some (jobId, c')
               \<longrightarrow> t = t'"
  proof (intro allI impI)
    fix t t' c c'
    assume h: "intervals s t = Some (jobId, c) \<and> intervals s t' = Some (jobId, c')"
    from h sys_inv_link [OF inv, of t jobId c] assms(2) have "timer j = Some t" by simp
    moreover from h sys_inv_link [OF inv, of t' jobId c'] assms(2) have "timer j = Some t'" by simp
    ultimately show "t = t'" by simp
  qed
  from a b show ?thesis by simp
qed

theorem start_idempotent_witness:
  "reachable demoTicked
   \<and> map_option overall (store demoTicked ''job1'') = Some running
   \<and> map_option timer (store demoTicked ''job1'') = Some (Some 0)
   \<and> start 5 ''job1'' demoPayload demoTicked =
        (Inr \<lparr> ack_jobId = ''job1'', started = True, empty = False, already = True \<rparr>, demoTicked)"
proof -
  note j = demoTicked_job
  show ?thesis
    using start_idempotent [OF reachable_demoTicked j, of 5 demoPayload] reachable_demoTicked
    by (simp add: j)
qed

subsection \<open>C2: one report per entry of the key list\<close>

text \<open>
  Claim C2, as amended. When \<^verbatim>\<open>start\<close> creates a new job, it seeds one pending
  report per entry of \<^verbatim>\<open>reportKeys\<close>, in the order of the list and with duplicates
  kept: the keys of the reports are the list itself and \<open>progress.total\<close> is its length.
  The report keys of the job are distinct exactly when the entries of the list are.
\<close>

theorem seeding_keeps_every_key:
  assumes "jobId \<noteq> []" and "store s jobId = None"
  shows "\<exists>j. store (snd (start now jobId pl s)) jobId = Some j
           \<and> map reportKey (reports j) = (case p_reportKeys pl of None \<Rightarrow> [] | Some ks \<Rightarrow> ks)
           \<and> p_total (progress j) = length (case p_reportKeys pl of None \<Rightarrow> [] | Some ks \<Rightarrow> ks)
           \<and> (\<forall>r \<in> set (reports j). fieldsMapped r = ''pending'' \<and> attributesMapped r = ''pending'')
           \<and> (distinct (map reportKey (reports j)) \<longleftrightarrow>
                distinct (case p_reportKeys pl of None \<Rightarrow> [] | Some ks \<Rightarrow> ks))"
proof -
  have m: "\<And>ks. map reportKey (map seedTask ks) = ks"
    by (simp add: seedTask_def comp_def)
  from start_new_job [OF assms, of now pl]
  obtain j where j: "store (snd (start now jobId pl s)) jobId = Some j"
    "reports j = map seedTask (case p_reportKeys pl of None \<Rightarrow> [] | Some ks \<Rightarrow> ks)"
    "p_total (progress j) = length (reports j)"
    by blast
  from j(2) have "\<forall>r \<in> set (reports j). fieldsMapped r = ''pending'' \<and> attributesMapped r = ''pending''"
    by (auto simp: seedTask_def)
  with j m show ?thesis by simp
qed

theorem seeding_keeps_every_key_witness:
  "\<exists>j. store (snd (start 0 ''job1'' demoPayload initial)) ''job1'' = Some j
      \<and> map reportKey (reports j) = [''soi'', ''pands'']
      \<and> p_total (progress j) = 2"
  using seeding_keeps_every_key [of "''job1''" initial 0 demoPayload]
  by (auto simp: initial_def demoPayload_def)

text \<open>
  The claim as stated (duplicate keys collapse to one report, the total is the number of
  distinct keys) fails for the list \<^verbatim>\<open>['soi', 'soi']\<close>: the job has two reports with
  the key \<^verbatim>\<open>soi\<close> and a total of 2, while the list has one distinct key.
\<close>

theorem seeding_duplicates_counterexample:
  "map_option reports
     (store (snd (start 0 ''job1'' (demoPayload\<lparr> p_reportKeys := Some [''soi'', ''soi''] \<rparr>) initial))
        ''job1'')
   = Some [seedTask ''soi'', seedTask ''soi'']
   \<and> map_option progress
     (store (snd (start 0 ''job1'' (demoPayload\<lparr> p_reportKeys := Some [''soi'', ''soi''] \<rparr>) initial))
        ''job1'')
   = Some \<lparr> p_done = 0, p_total = 2 \<rparr>
   \<and> card (set [''soi'', ''soi'']) = 1"
  by (simp add: start_def ensureJob_def demoPayload_def initial_def store_schedule
      Let_def)

subsection \<open>C5: the outcome flags agree with the reports\<close>

text \<open>
  Claim C5. In every reachable state, for every job: \<open>fieldsAllYes\<close> holds exactly when
  the reports are not empty and every report has \<open>fieldsMapped = yes\<close>;
  \<open>attributesAllYes\<close> likewise for \<open>attributesMapped\<close>; \<open>fieldsAnyNo\<close> holds exactly
  when some report has \<open>fieldsMapped = no\<close>; \<open>attributesAnyNo\<close> exactly when some
  report has \<open>attributesMapped = no\<close>.
\<close>

theorem outcome_consistent:
  assumes "reachable s" and "store s jobId = Some j"
  shows "(fieldsAllYes (outcome j) \<longleftrightarrow>
            reports j \<noteq> [] \<and> (\<forall>r \<in> set (reports j). fieldsMapped r = ''yes''))
       \<and> (attributesAllYes (outcome j) \<longleftrightarrow>
            reports j \<noteq> [] \<and> (\<forall>r \<in> set (reports j). attributesMapped r = ''yes''))
       \<and> (fieldsAnyNo (outcome j) \<longleftrightarrow> (\<exists>r \<in> set (reports j). fieldsMapped r = ''no''))
       \<and> (attributesAnyNo (outcome j) \<longleftrightarrow> (\<exists>r \<in> set (reports j). attributesMapped r = ''no''))"
proof -
  have "job_inv j" using reachable_inv [OF assms(1)] assms(2) by (rule sys_inv_job)
  then have "outcome j = computeOutcome (reports j)" by (simp add: job_inv_def)
  then show ?thesis
    by (simp add: computeOutcome_def list_all_iff list_ex_iff)
qed

theorem outcome_consistent_witness:
  "reachable demoTicked
   \<and> map_option (\<lambda>j. (fieldsAllYes (outcome j), attributesAllYes (outcome j),
                        fieldsAnyNo (outcome j), attributesAnyNo (outcome j)))
        (store demoTicked ''job1'') = Some (False, False, True, True)
   \<and> map_option (\<lambda>j. map fieldsMapped (reports j)) (store demoTicked ''job1'')
        = Some [''no'', ''pending'']"
proof -
  note j = demoTicked_job
  show ?thesis
    using outcome_consistent [OF reachable_demoTicked j] reachable_demoTicked
    by (simp add: j seedTask_def)
qed

subsection \<open>C6: a job without report keys\<close>

text \<open>
  Claim C6. A call of \<^verbatim>\<open>start\<close> with a job id that has no job yet and a list of
  report keys that is empty or absent returns \<^verbatim>\<open>{started: true, empty: true}\<close> and
  leaves one new job that is \<open>success\<close> with progress \<open>0/0\<close>, no report and all four
  outcome flags false. No interval is created, by this call or by a later \<^verbatim>\<open>start\<close>
  of the same id, which changes nothing at all.
\<close>

theorem empty_set_completion:
  assumes "jobId \<noteq> []" and "store s jobId = None"
    and "p_reportKeys pl = None \<or> p_reportKeys pl = Some []"
  shows "start now jobId pl s =
           (Inr \<lparr> ack_jobId = jobId, started = True, empty = True, already = False \<rparr>,
            s\<lparr> store := (store s)(jobId \<mapsto>
                 \<lparr> startedAt = now, overall = success,
                   progress = \<lparr> p_done = 0, p_total = 0 \<rparr>, reports = [],
                   outcome = \<lparr> fieldsAnyNo = False, attributesAnyNo = False,
                               fieldsAllYes = False, attributesAllYes = False \<rparr>,
                   timer = None, cursor = 0, jobMessage = None \<rparr>) \<rparr>)
         \<and> intervals (snd (start now jobId pl s)) = intervals s
         \<and> nextTimer (snd (start now jobId pl s)) = nextTimer s
         \<and> snd (start now' jobId pl' (snd (start now jobId pl s))) = snd (start now jobId pl s)"
  using assms
  by (auto simp: start_def ensureJob_def modJob_def computeOutcome_def Let_def)

theorem empty_set_completion_witness:
  "start 7 ''job2'' (demoPayload\<lparr> p_reportKeys := Some [] \<rparr>) initial =
     (Inr \<lparr> ack_jobId = ''job2'', started = True, empty = True, already = False \<rparr>,
      initial\<lparr> store := (store initial)(''job2'' \<mapsto>
           \<lparr> startedAt = 7, overall = success,
             progress = \<lparr> p_done = 0, p_total = 0 \<rparr>, reports = [],
             outcome = \<lparr> fieldsAnyNo = False, attributesAnyNo = False,
                         fieldsAllYes = False, attributesAllYes = False \<rparr>,
             timer = None, cursor = 0, jobMessage = None \<rparr>) \<rparr>)"
  using empty_set_completion [of "''job2''" initial "demoPayload\<lparr> p_reportKeys := Some [] \<rparr>" 7]
  by (simp add: initial_def)

subsection \<open>C8: status of an unknown and of a known job\<close>

text \<open>
  Claim C8. \<^verbatim>\<open>status\<close> returns the not-found value exactly for a job id that has no
  job in the store, and it has no failing branch. For a job id with a job it returns
  a snapshot with that id, the job's overall state, progress and outcome, and one entry
  per report, in order, with the report's key, its two axes under the new and under the
  legacy names, its source, its counts and its message.
\<close>

theorem status_result:
  "(status jobId s = None \<longleftrightarrow> store s jobId = None)
   \<and> (store s jobId = Some j \<longrightarrow>
        (\<exists>snap. status jobId s = Some snap
           \<and> s_jobId snap = jobId
           \<and> s_overall snap = overall j
           \<and> s_progress snap = progress j
           \<and> s_outcome snap = outcome j
           \<and> length (s_reports snap) = length (reports j)
           \<and> (\<forall>i < length (reports j).
                v_reportKey (s_reports snap ! i) = reportKey (reports j ! i)
              \<and> v_fieldsMapped (s_reports snap ! i) = fieldsMapped (reports j ! i)
              \<and> v_attributesMapped (s_reports snap ! i) = attributesMapped (reports j ! i)
              \<and> v_located (s_reports snap ! i) = fieldsMapped (reports j ! i)
              \<and> v_mapped (s_reports snap ! i) = attributesMapped (reports j ! i)
              \<and> v_locatedSource (s_reports snap ! i) = locatedSource (reports j ! i)
              \<and> v_mappedCount (s_reports snap ! i) = mappedCount (reports j ! i)
              \<and> v_totalFields (s_reports snap ! i) = totalFields (reports j ! i)
              \<and> v_message (s_reports snap ! i) = js_or (message (reports j ! i)) JNull)))"
  by (auto simp: status_def split: option.splits)

theorem status_result_witness:
  "status ''nojob'' demoTicked = None
   \<and> (\<exists>snap. status ''job1'' demoTicked = Some snap
         \<and> s_overall snap = running
         \<and> s_progress snap = \<lparr> p_done = 1, p_total = 2 \<rparr>
         \<and> v_located (s_reports snap ! 0) = ''no''
         \<and> v_located (s_reports snap ! 1) = ''pending'')"
proof -
  have "store demoTicked ''nojob'' = None" by (simp add: demoTicked_other)
  with status_result [of "''nojob''" demoTicked]
  have a: "status ''nojob'' demoTicked = None" by simp
  from status_result [of "''job1''" demoTicked,
      where j = "\<lparr> startedAt = 0, overall = running, progress = \<lparr> p_done = 1, p_total = 2 \<rparr>,
            reports = [(seedTask ''soi'')\<lparr> fieldsMapped := ''no'', attributesMapped := ''no'' \<rparr>,
                       seedTask ''pands''],
            outcome = \<lparr> fieldsAnyNo = True, attributesAnyNo = True,
                        fieldsAllYes = False, attributesAllYes = False \<rparr>,
            timer = Some 0, cursor = 1, jobMessage = None \<rparr>"]
    demoTicked_job
  obtain snap where s: "status ''job1'' demoTicked = Some snap" "s_overall snap = running"
    "s_progress snap = \<lparr> p_done = 1, p_total = 2 \<rparr>"
    "\<forall>i < 2. v_located (s_reports snap ! i) =
        fieldsMapped ([(seedTask ''soi'')\<lparr> fieldsMapped := ''no'', attributesMapped := ''no'' \<rparr>,
                       seedTask ''pands''] ! i)"
    by auto
  from s(4) have "v_located (s_reports snap ! 0) = ''no''" by simp
  moreover from s(4) have "v_located (s_reports snap ! 1) = ''pending''"
    by (simp add: seedTask_def)
  ultimately show ?thesis using a s(1,2,3) by simp
qed


subsection \<open>C9: what tier A answers\<close>




subsection \<open>C7: a tier call that throws\<close>

text \<open>
  Claim C7, as amended. In a reachable state, let a waiting step of a job reach its
  \<^verbatim>\<open>catch\<close> because a tier call threw \<open>err\<close>, any value (tier A throws, or tier A
  returns, tier B is needed and tier B throws). Then the job becomes \<open>failed\<close>, its
  message is \<^verbatim>\<open>String(err?.message || err)\<close>, which is empty when that string is
  empty, and its timer is cleared; nothing else of the job changes: the reports, the
  cursor, the progress and the outcome are those of the moment of the failure. So the
  report being processed and the cursor keep the values the step read when it began,
  whenever no other step of the job has written them since. Every other job of the
  store is unchanged, no live interval is left for the failed job and the intervals of
  the other jobs stay. The status snapshot of the job shows \<open>failed\<close> with the progress,
  outcome and reports it showed just before, and a later \<^verbatim>\<open>start\<close> of the same id
  returns \<^verbatim>\<open>already: true\<close> without throwing and without changing the state. What
  steps of the same job that overlap this one do to the job is left out.
\<close>

theorem tier_failure:
  assumes "reachable s" and "e \<in># inflight s" and "store s (f_jobId e) = Some j"
    and "TierA (argsA (f_jobId e) (f_ctx e) (f_task e)) = Inl err
         \<or> (\<exists>rawA. TierA (argsA (f_jobId e) (f_ctx e) (f_task e)) = Inr rawA
                \<and> aNeedsB (normalizeTierResult rawA)
                \<and> TierB (argsB (f_jobId e) (f_ctx e) (f_task e)) = Inl err)"
  shows "store (stepEnd TierA TierB e s) (f_jobId e) =
           Some (j\<lparr> overall := failed, jobMessage := Some (errText err), timer := None \<rparr>)
       \<and> errText err = (case th_message err of Some m \<Rightarrow> m | None \<Rightarrow> th_text err)
       \<and> (\<exists>j'. store (stepEnd TierA TierB e s) (f_jobId e) = Some j'
             \<and> (reports j ! f_index e = f_task e \<longrightarrow> reports j' ! f_index e = f_task e)
             \<and> (cursor j = f_index e \<longrightarrow> cursor j' = f_index e)
             \<and> progress j' = progress j \<and> outcome j' = outcome j)
       \<and> (\<forall>k. k \<noteq> f_jobId e \<longrightarrow> store (stepEnd TierA TierB e s) k = store s k)
       \<and> (\<forall>t c. intervals (stepEnd TierA TierB e s) t \<noteq> Some (f_jobId e, c))
       \<and> (\<forall>t k c. k \<noteq> f_jobId e \<longrightarrow>
             (intervals (stepEnd TierA TierB e s) t = Some (k, c) \<longleftrightarrow> intervals s t = Some (k, c)))
       \<and> (\<exists>snap snap'. status (f_jobId e) s = Some snap
             \<and> status (f_jobId e) (stepEnd TierA TierB e s) = Some snap'
             \<and> s_overall snap' = failed
             \<and> s_progress snap' = s_progress snap
             \<and> s_outcome snap' = s_outcome snap
             \<and> s_reports snap' = s_reports snap)
       \<and> start now (f_jobId e) pl (stepEnd TierA TierB e s) =
           (Inr \<lparr> ack_jobId = f_jobId e, started = True, empty = False, already = True \<rparr>,
            stepEnd TierA TierB e s)"
proof -
  let ?k = "f_jobId e"
  let ?s' = "stepEnd TierA TierB e s"
  let ?j' = "j\<lparr> overall := failed, jobMessage := Some (errText err), timer := None \<rparr>"
  have inv: "sys_inv s" using assms(1) by (rule reachable_inv)
  have ji: "job_inv j" using inv assms(3) by (rule sys_inv_job)
  have ne: "?k \<noteq> []" using reachable_no_empty_id [OF assms(1)] assms(3) by auto
  have thr: "fst (resolveTiers TierA TierB ?k (f_ctx e) (f_task e)) = Inl err"
    using assms(4) by (simp add: resolveTiers_throws)
  have a: "store ?s' ?k = Some ?j'"
    using assms(3) thr by (rule stepEnd_failed)
  have ej: "endJob TierA TierB e j = ?j'"
    using thr by (simp add: endJob_def)
  have b: "errText err = (case th_message err of Some m \<Rightarrow> m | None \<Rightarrow> th_text err)"
    by (simp add: errText_def)
  have keep: "\<exists>j'. store ?s' ?k = Some j'
             \<and> (reports j ! f_index e = f_task e \<longrightarrow> reports j' ! f_index e = f_task e)
             \<and> (cursor j = f_index e \<longrightarrow> cursor j' = f_index e)
             \<and> progress j' = progress j \<and> outcome j' = outcome j"
    using a by simp
  have c: "\<forall>k. k \<noteq> ?k \<longrightarrow> store ?s' k = store s k"
    by (simp add: store_stepEnd_other)
  have iv: "intervals ?s' = (case timer j of None \<Rightarrow> intervals s | Some t \<Rightarrow> (intervals s)(t := None))"
    using assms(3) ej by (simp add: intervals_stepEnd split: option.splits)
  have d: "\<forall>t c. intervals ?s' t \<noteq> Some (?k, c)"
  proof (intro allI notI)
    fix t c assume h: "intervals ?s' t = Some (?k, c)"
    then have old: "intervals s t = Some (?k, c)"
      by (auto simp: iv split: option.splits if_splits)
    with sys_inv_link [OF inv old] assms(3) have "timer j = Some t" by simp
    with h show False by (simp add: iv)
  qed
  have f: "\<forall>t k c. k \<noteq> ?k \<longrightarrow> (intervals ?s' t = Some (k, c) \<longleftrightarrow> intervals s t = Some (k, c))"
  proof (intro allI impI)
    fix t k c assume k: "k \<noteq> ?k"
    show "intervals ?s' t = Some (k, c) \<longleftrightarrow> intervals s t = Some (k, c)"
    proof (cases "timer j")
      case None
      then show ?thesis by (simp add: iv)
    next
      case (Some t0)
      show ?thesis
      proof (cases "t = t0")
        case False
        with Some show ?thesis by (simp add: iv)
      next
        case True
        have "intervals s t0 \<noteq> Some (k, c)"
          using sys_inv_owner [OF inv assms(3) Some] k by auto
        with True Some show ?thesis by (simp add: iv)
      qed
    qed
  qed
  have g: "\<exists>snap snap'. status ?k s = Some snap \<and> status ?k ?s' = Some snap'
             \<and> s_overall snap' = failed \<and> s_progress snap' = s_progress snap
             \<and> s_outcome snap' = s_outcome snap \<and> s_reports snap' = s_reports snap"
    using assms(3) a by (simp add: status_def)
  from sys_inv_waiting [OF inv assms(2)] assms(3) have "reports j \<noteq> []" by auto
  with ji have tot: "p_total (progress j) \<noteq> 0" by (simp add: job_inv_def)
  have h: "start now ?k pl ?s' =
           (Inr \<lparr> ack_jobId = ?k, started = True, empty = False, already = True \<rparr>, ?s')"
    using ne tot a by (simp add: start_def ensureJob_def)
  from a b keep c d f g h show ?thesis by blast
qed

theorem tier_failure_witness:
  "reachable (stepStart ''job1'' demoCtx demoStarted)
   \<and> demoStep0 \<in># inflight (stepStart ''job1'' demoCtx demoStarted)
   \<and> store (stepEnd (throwingTierA (thrownError ''Error'' ''boom'')) TierB_locateAndMap demoStep0
              (stepStart ''job1'' demoCtx demoStarted)) ''job1''
       = Some \<lparr> startedAt = 0, overall = failed, progress = \<lparr> p_done = 0, p_total = 2 \<rparr>,
            reports = [seedTask ''soi'', seedTask ''pands''],
            outcome = \<lparr> fieldsAnyNo = False, attributesAnyNo = False,
                        fieldsAllYes = False, attributesAllYes = False \<rparr>,
            timer = None, cursor = 0, jobMessage = Some ''boom'' \<rparr>"
proof -
  let ?s = "stepStart ''job1'' demoCtx demoStarted"
  have r: "reachable ?s"
    by (rule reach_tick [OF reachable_demoStarted, of 0]) (simp add: demoStarted_eq)
  have m: "demoStep0 \<in># inflight ?s"
    by (simp add: inflight_stepStart demoStarted_job demoStep0_def)
  have j: "store ?s ''job1'' = store demoStarted ''job1''"
    by (simp add: store_stepStart demoStarted_job beginJob_def)
  have k: "f_jobId demoStep0 = ''job1''" by (simp add: demoStep0_def)
  from tier_failure [OF r m, where TierA = "throwingTierA (thrownError ''Error'' ''boom'')"
      and TierB = TierB_locateAndMap and err = "thrownError ''Error'' ''boom''"
      and j = "the (store demoStarted ''job1'')"] r m
  show ?thesis
    by (simp add: j k demoStarted_job throwingTierA_def errText_def thrownError_def)
qed

text \<open>
  The claim as stated promises a non-empty captured message. A tier that throws the empty
  string fails the job with the empty message; so does one that throws the empty array.
\<close>

theorem tier_failure_empty_message_counterexample:
  "map_option overall
     (store (stepEnd (throwingTierA (thrownString [])) TierB_locateAndMap demoStep0
               (stepStart ''job1'' demoCtx demoStarted)) ''job1'')
     = Some failed
   \<and> map_option jobMessage
     (store (stepEnd (throwingTierA (thrownString [])) TierB_locateAndMap demoStep0
               (stepStart ''job1'' demoCtx demoStarted)) ''job1'')
     = Some (Some [])
   \<and> map_option jobMessage
     (store (stepEnd (throwingTierA thrownEmptyArray) TierB_locateAndMap demoStep0
               (stepStart ''job1'' demoCtx demoStarted)) ''job1'')
     = Some (Some [])"
  by (simp add: store_stepEnd demoBegun_job demoStarted_job endJob_def resolveTiers_def
      throwingTierA_def errText_def thrownString_def thrownEmptyArray_def)

subsection \<open>C4: the merge of the two tiers\<close>



text \<open>
  Outside the values of a tier result the merge is different: tier A answers
  \<^verbatim>\<open>maybe\<close> on the fields axis and tier B answers \<open>yes\<close>; tier B is called, the merged
  fields value is still \<^verbatim>\<open>maybe\<close>, and the report ends with \<open>no\<close>.
\<close>

lemma tier_merge_outside_contract:
  "resolveTiers
     (answeringTierA (emptyRaw\<lparr> r_fieldsMapped := JStr ''maybe'', r_attributesMapped := JStr ''yes'' \<rparr>))
     (answeringTierB (emptyRaw\<lparr> r_fieldsMapped := JStr ''yes'', r_attributesMapped := JStr ''yes'' \<rparr>))
     ''job1'' demoCtx (seedTask ''soi'')
   = (Inr (Some \<lparr> t_fieldsMapped = JStr ''maybe'', t_attributesMapped = JStr ''yes'',
                   t_locatedSource = JNull, t_mappedCount = JNum (Fin 0),
                   t_totalFields = JNum (Fin 0), t_message = JNull \<rparr>),
      [CallTierA, CallTierB])
   \<and> fieldsMapped (applyResult
        (Some \<lparr> t_fieldsMapped = JStr ''maybe'', t_attributesMapped = JStr ''yes'',
                t_locatedSource = JNull, t_mappedCount = JNum (Fin 0),
                t_totalFields = JNum (Fin 0), t_message = JNull \<rparr>) (seedTask ''soi'')) = ''no''"
  by (simp add: resolveTiers_def answeringTierA_def answeringTierB_def normalizeTierResult_def
      emptyRaw_def aNeedsB_def mergeTiers_def oget_def coalesce_def js_or_def applyResult_def
      terminalize_def Let_def)

subsection \<open>C10: what a completed step writes\<close>

text \<open>
  Claim C10, as amended. Whatever the two tiers return (objects with the new or the
  legacy key names, axis values outside \<open>{pending, yes, no}\<close>, counts that are missing
  or not finite numbers, or nothing), a step that gets a result from its tiers writes a
  whole task to the report it processed. With \<open>rawA\<close> what tier A returned and \<open>rawB\<close>
  what tier B returned (nothing when tier B was not called), and the raw value of an
  axis read under its new key name, or under its legacy name when the new one is null
  or missing, the task written is:
  the same report key;
  on each axis \<open>yes\<close> when tier A's raw value is \<open>yes\<close>, or when tier A's raw value is
  \<open>pending\<close> or falsy and tier B's raw value is \<open>yes\<close>, and \<open>no\<close> in every other case
  (so every unrecognized value ends as \<open>no\<close>);
  a \<open>locatedSource\<close> that is null when the fields axis is not \<open>yes\<close>, and otherwise
  the first truthy one of tier A's source, tier B's source and null;
  a \<open>mappedCount\<close> and a \<open>totalFields\<close> that are those of tier A's object when it is a
  finite number, of either sign, and 0 when it is not; when tier A returned no object
  the same of tier B's object, and 0 when neither returned one;
  a \<open>message\<close> that is the first truthy one of tier A's message, tier B's message and
  null, of any type.
\<close>

theorem normalized_write:
  fixes TierA :: tierA and TierB :: tierB
  defines "rawF \<equiv> oget (\<lambda>r. coalesce (r_fieldsMapped r) (r_located r))"
    and "rawT \<equiv> oget (\<lambda>r. coalesce (r_attributesMapped r) (r_mapped r))"
    and "answer \<equiv> \<lambda>a b. if a = JStr ''yes''
                            \<or> ((a = JStr ''pending'' \<or> \<not> truthy a) \<and> b = JStr ''yes'')
                          then ''yes'' else ''no''"
    and "numOr0 \<equiv> \<lambda>v. if isFinite v then v else JNum (Fin 0)"
  assumes "reachable s" and "e \<in># inflight s"
    and "fst (resolveTiers TierA TierB (f_jobId e) (f_ctx e) (f_task e)) = Inr result"
  shows "\<exists>rawA rawB j'.
           TierA (argsA (f_jobId e) (f_ctx e) (f_task e)) = Inr rawA
         \<and> (if CallTierB \<in> set (snd (resolveTiers TierA TierB (f_jobId e) (f_ctx e) (f_task e)))
            then TierB (argsB (f_jobId e) (f_ctx e) (f_task e)) = Inr rawB else rawB = None)
         \<and> store (stepEnd TierA TierB e s) (f_jobId e) = Some j'
         \<and> f_index e < length (reports j')
         \<and> reports j' ! f_index e =
             \<lparr> reportKey = reportKey (f_task e),
               fieldsMapped = answer (rawF rawA) (rawF rawB),
               attributesMapped = answer (rawT rawA) (rawT rawB),
               locatedSource =
                 (if answer (rawF rawA) (rawF rawB) = ''yes''
                  then js_or (oget r_locatedSource rawA) (js_or (oget r_locatedSource rawB) JNull)
                  else JNull),
               mappedCount =
                 (case rawA of Some ra \<Rightarrow> numOr0 (r_mappedCount ra)
                  | None \<Rightarrow> (case rawB of Some rb \<Rightarrow> numOr0 (r_mappedCount rb)
                             | None \<Rightarrow> JNum (Fin 0))),
               totalFields =
                 (case rawA of Some ra \<Rightarrow> numOr0 (r_totalFields ra)
                  | None \<Rightarrow> (case rawB of Some rb \<Rightarrow> numOr0 (r_totalFields rb)
                             | None \<Rightarrow> JNum (Fin 0))),
               message = js_or (oget r_message rawA) (js_or (oget r_message rawB) JNull) \<rparr>"
proof -
  let ?k = "f_jobId e" and ?cx = "f_ctx e" and ?r = "f_task e"
  have inv: "sys_inv s" using assms(5) by (rule reachable_inv)
  from sys_inv_waiting [OF inv assms(6)]
  obtain j where j: "store s ?k = Some j" "f_index e < length (reports j)"
    "reportKey ?r = reportKey (reports j ! f_index e)" by blast
  from assms(7) obtain rawA where A: "TierA (argsA ?k ?cx ?r) = Inr rawA"
    by (auto simp: resolveTiers_def Let_def split: sum.splits)
  note calls = resolveTiers_calls [of TierA ?k ?cx ?r rawA TierB, OF A]
  from resolveTiers_result [of TierA ?k ?cx ?r rawA TierB result, OF A assms(7)]
  obtain rawB where B: "if aNeedsB (normalizeTierResult rawA)
       then TierB (argsB ?k ?cx ?r) = Inr rawB else rawB = None"
    by (cases "aNeedsB (normalizeTierResult rawA)") auto
  from stepEnd_completed [OF j(1) assms(7)]
  obtain j' where j': "store (stepEnd TierA TierB e s) ?k = Some j'"
    "reports j' = (reports j)[f_index e := applyResult result (reports j ! f_index e)]"
    by blast
  from j'(2) j(2) have w: "reports j' ! f_index e = applyResult result (reports j ! f_index e)"
    and len: "f_index e < length (reports j')" by simp_all
  have B': "if CallTierB \<in> set (snd (resolveTiers TierA TierB ?k ?cx ?r))
            then TierB (argsB ?k ?cx ?r) = Inr rawB else rawB = None"
    using B calls by simp
  have yes: "\<And>c. ((if c then ''yes'' else ''no'') = ''yes'') = c" by simp
  note wr = applyResult_written [of TierA ?k ?cx ?r rawA TierB result rawB "reports j ! f_index e",
      OF A assms(7) B]
  have "reports j' ! f_index e =
             \<lparr> reportKey = reportKey (f_task e),
               fieldsMapped = answer (rawF rawA) (rawF rawB),
               attributesMapped = answer (rawT rawA) (rawT rawB),
               locatedSource =
                 (if answer (rawF rawA) (rawF rawB) = ''yes''
                  then js_or (oget r_locatedSource rawA) (js_or (oget r_locatedSource rawB) JNull)
                  else JNull),
               mappedCount =
                 (case rawA of Some ra \<Rightarrow> numOr0 (r_mappedCount ra)
                  | None \<Rightarrow> (case rawB of Some rb \<Rightarrow> numOr0 (r_mappedCount rb)
                             | None \<Rightarrow> JNum (Fin 0))),
               totalFields =
                 (case rawA of Some ra \<Rightarrow> numOr0 (r_totalFields ra)
                  | None \<Rightarrow> (case rawB of Some rb \<Rightarrow> numOr0 (r_totalFields rb)
                             | None \<Rightarrow> JNum (Fin 0))),
               message = js_or (oget r_message rawA) (js_or (oget r_message rawB) JNull) \<rparr>"
    unfolding w wr answer_def rawF_def rawT_def numOr0_def yes j(3) by (rule refl)
  with A B' j'(1) len show ?thesis by blast
qed

theorem normalized_write_witness:
  "\<exists>j'. store (stepEnd
        (answeringTierA (emptyRaw\<lparr> r_located := JStr ''yes'', r_mapped := JStr ''unknown'',
            r_locatedSource := JStr ''db'', r_mappedCount := JNum NaN \<rparr>))
        (answeringTierB (emptyRaw\<lparr> r_mapped := JStr ''yes'', r_totalFields := JNum (Fin 7) \<rparr>))
        demoStep0 (stepStart ''job1'' demoCtx demoStarted)) ''job1'' = Some j'
      \<and> reports j' ! 0 =
          \<lparr> reportKey = ''soi'', fieldsMapped = ''yes'', attributesMapped = ''no'',
            locatedSource = JStr ''db'', mappedCount = JNum (Fin 0),
            totalFields = JNum (Fin 0), message = JNull \<rparr>"
proof -
  let ?A = "answeringTierA (emptyRaw\<lparr> r_located := JStr ''yes'', r_mapped := JStr ''unknown'',
            r_locatedSource := JStr ''db'', r_mappedCount := JNum NaN \<rparr>)"
  let ?B = "answeringTierB (emptyRaw\<lparr> r_mapped := JStr ''yes'', r_totalFields := JNum (Fin 7) \<rparr>)"
  let ?res = "\<lparr> t_fieldsMapped = JStr ''yes'', t_attributesMapped = JStr ''unknown'',
                t_locatedSource = JStr ''db'', t_mappedCount = JNum (Fin 0),
                t_totalFields = JNum (Fin 0), t_message = JNull \<rparr>"
  have r: "resolveTiers ?A ?B ''job1'' demoCtx (seedTask ''soi'')
             = (Inr (Some ?res), [CallTierA, CallTierB])"
    by (simp add: resolveTiers_def answeringTierA_def answeringTierB_def normalizeTierResult_def
        emptyRaw_def aNeedsB_def mergeTiers_def oget_def coalesce_def js_or_def Let_def)
  from normalized_write [OF demoBegun_reachable demoBegun_inflight, where TierA = ?A
      and TierB = ?B and result = "Some ?res"]
  have "\<exists>j'. store (stepEnd ?A ?B demoStep0 (stepStart ''job1'' demoCtx demoStarted)) ''job1'' = Some j'
      \<and> reports j' ! 0 =
          \<lparr> reportKey = reportKey (seedTask ''soi''), fieldsMapped = ''yes'', attributesMapped = ''no'',
            locatedSource = JStr ''db'', mappedCount = JNum (Fin 0),
            totalFields = JNum (Fin 0), message = JNull \<rparr>"
    apply (simp add: r answeringTierA_def answeringTierB_def)
    apply (simp add: emptyRaw_def oget_def coalesce_def js_or_def)
    apply blast
    done
  then show ?thesis by (simp add: seedTask_def)
qed

text \<open>
  The claim as stated promises counts that are not negative and a message that is a
  string or null. Tier A returns \<^verbatim>\<open>mappedCount: -1\<close> and the number 42 as its
  message: the report receives both as they are.
\<close>

theorem normalized_write_counterexample:
  "map_option reports
     (store (stepEnd
        (answeringTierA (emptyRaw\<lparr> r_located := JStr ''yes'', r_mapped := JStr ''yes'',
            r_mappedCount := JNum (Fin (- 1)), r_totalFields := JNum (Fin 3),
            r_message := JNum (Fin 42) \<rparr>))
        TierB_locateAndMap demoStep0 (stepStart ''job1'' demoCtx demoStarted)) ''job1'')
   = Some [\<lparr> reportKey = ''soi'', fieldsMapped = ''yes'', attributesMapped = ''yes'',
              locatedSource = JNull, mappedCount = JNum (Fin (- 1)),
              totalFields = JNum (Fin 3), message = JNum (Fin 42) \<rparr>,
            seedTask ''pands'']"
  by (simp add: store_stepEnd demoBegun_job demoStarted_job endJob_def resolveTiers_def
      answeringTierA_def normalizeTierResult_def emptyRaw_def aNeedsB_def oget_def coalesce_def
      js_or_def advance_def applyResult_def terminalize_def seedTask_def Let_def)

subsection \<open>C3: reports left pending by overlapping steps\<close>


end
